theory Spec2Isabelle
  imports Main "HOL-Library.Monad_Syntax" "HOL-Library.Char_ord"
begin

section \<open>Formulas\<close>

text \<open>
  The converters of \<^verbatim>\<open>propositions/operators.py\<close> work on objects of the class
  \<^verbatim>\<open>Formula\<close> of \<^verbatim>\<open>propositions/syntax.py\<close>: a root label (a string) and
  zero, one or two sub-formulas, built by \<^verbatim>\<open>Formula(root)\<close>,
  \<^verbatim>\<open>Formula(root, first)\<close> and \<^verbatim>\<open>Formula(root, first, second)\<close>. The three
  constructors below are these three call shapes. The labels stay strings, since the
  converters dispatch on the string: \<^verbatim>\<open>root == '&'\<close>, \<^verbatim>\<open>is_unary(root)\<close>.
\<close>

datatype formula = Leaf string | Unary string formula | Binary string formula formula

text \<open>
  The attributes \<^verbatim>\<open>formula.root\<close>, \<^verbatim>\<open>formula.first\<close> and
  \<^verbatim>\<open>formula.second\<close>. Reading an attribute that the object does not have raises
  \<^verbatim>\<open>AttributeError\<close> in Python: here the accessor returns \<open>None\<close>.
\<close>

fun root :: "formula \<Rightarrow> string" where
  "root (Leaf r) = r"
| "root (Unary r A) = r"
| "root (Binary r A B) = r"

fun first :: "formula \<Rightarrow> formula option" where
  "first (Leaf r) = None"
| "first (Unary r A) = Some A"
| "first (Binary r A B) = Some A"

fun second :: "formula \<Rightarrow> formula option" where
  "second (Leaf r) = None"
| "second (Unary r A) = None"
| "second (Binary r A B) = Some B"

text \<open>
  Modelled from the spec: the classification of root labels (\<^verbatim>\<open>is_variable\<close>,
  \<^verbatim>\<open>is_constant\<close>, \<^verbatim>\<open>is_unary\<close>, \<^verbatim>\<open>is_binary\<close> of
  \<^verbatim>\<open>propositions/syntax.py\<close>, which is not among the sources). A variable name is a
  letter from \<open>p\<close> to \<open>z\<close> followed by decimal digits; the constants are \<open>T\<close> and
  \<open>F\<close>; the only unary operator is \<open>~\<close>; the binary operators are
  \<open>&\<close>, \<open>|\<close>, \<open>->\<close>, \<open>+\<close> (xor), \<open><->\<close> (iff), \<open>-&\<close> (nand) and \<open>-|\<close> (nor).
  The proofs below use of \<open>is_variable\<close> only that \<open>p\<close> is a variable name and that no
  constant or operator label is one.
\<close>

definition is_digit :: "char \<Rightarrow> bool" where
  "is_digit c = (CHR ''0'' \<le> c \<and> c \<le> CHR ''9'')"

fun is_variable :: "string \<Rightarrow> bool" where
  "is_variable [] = False"
| "is_variable (c # cs) = (CHR ''p'' \<le> c \<and> c \<le> CHR ''z'' \<and> list_all is_digit cs)"

definition is_constant :: "string \<Rightarrow> bool" where
  "is_constant s = (s = ''T'' \<or> s = ''F'')"

definition is_unary :: "string \<Rightarrow> bool" where
  "is_unary s = (s = ''~'')"

definition is_binary :: "string \<Rightarrow> bool" where
  "is_binary s = (s \<in> set [''&'', ''|'', ''->'', ''+'', ''<->'', ''-&'', ''-|''])"

text \<open>
  The constructor of \<^verbatim>\<open>Formula\<close> asserts that the label fits the number of
  sub-formulas. A well-formed formula is one that the constructor accepts at every node:
  each root label is one of the eleven recognised kinds.
\<close>

fun wf_formula :: "formula \<Rightarrow> bool" where
  "wf_formula (Leaf r) = (is_variable r \<or> is_constant r)"
| "wf_formula (Unary r A) = (is_unary r \<and> wf_formula A)"
| "wf_formula (Binary r A B) = (is_binary r \<and> wf_formula A \<and> wf_formula B)"

text \<open>
  Modelled from the spec: truth-table evaluation (\<^verbatim>\<open>evaluate\<close> of
  \<^verbatim>\<open>propositions/semantics.py\<close>, which is not among the sources). A variable
  assignment gives a truth value to every variable name; a label that is none of the
  eleven kinds has no value.
\<close>

fun evaluate :: "formula \<Rightarrow> (string \<Rightarrow> bool) \<Rightarrow> bool option" where
  "evaluate (Leaf r) model =
     (if is_constant r then Some (r = ''T'')
      else if is_variable r then Some (model r)
      else None)"
| "evaluate (Unary r A) model =
     (if is_unary r then do { a \<leftarrow> evaluate A model; Some (\<not> a) } else None)"
| "evaluate (Binary r A B) model =
     do {
       a \<leftarrow> evaluate A model;
       b \<leftarrow> evaluate B model;
       if r = ''&'' then Some (a \<and> b)
       else if r = ''|'' then Some (a \<or> b)
       else if r = ''->'' then Some (if a then b else True)
       else if r = ''+'' then Some (a \<noteq> b)
       else if r = ''<->'' then Some (a = b)
       else if r = ''-&'' then Some (\<not> (a \<and> b))
       else if r = ''-|'' then Some (\<not> (a \<or> b))
       else None
     }"

text \<open>
  The operator and constant labels of a formula (every label that is not the label of a
  variable leaf), and its variable names.
\<close>

fun operators :: "formula \<Rightarrow> string set" where
  "operators (Leaf r) = (if is_variable r then {} else {r})"
| "operators (Unary r A) = insert r (operators A)"
| "operators (Binary r A B) = insert r (operators A \<union> operators B)"

fun variables :: "formula \<Rightarrow> string set" where
  "variables (Leaf r) = (if is_variable r then {r} else {})"
| "variables (Unary r A) = variables A"
| "variables (Binary r A B) = variables A \<union> variables B"

section \<open>Termination measures\<close>

text \<open>
  Several branches of the converters call the converter again on a formula they have just
  built (the detour through an intermediate formula). \<open>weight\<close> counts a node that is
  rewritten by a detour more than the nodes of the intermediate formula, so that every
  recursive call of \<open>to_not_and\<close>, \<open>to_implies_not\<close> and \<open>to_implies_false\<close> is on a
  lighter formula.
\<close>

fun weight :: "formula \<Rightarrow> nat" where
  "weight (Leaf r) = 1"
| "weight (Unary r A) = 1 + weight A"
| "weight (Binary r A B) =
     (if r = ''+'' \<or> r = ''<->'' then 6 + 2 * (weight A + weight B)
      else if r = ''->'' \<or> r = ''-&'' \<or> r = ''-|'' then 3 + weight A + weight B
      else 1 + weight A + weight B)"

text \<open>
  \<open>to_nand\<close> also calls itself on formulas that contain results of earlier calls, so
  its measure bounds the weight of the result as well.
\<close>

fun nand_weight :: "formula \<Rightarrow> nat" where
  "nand_weight (Leaf r) = (if is_constant r then 7 else 1)"
| "nand_weight (Unary r A) = 7 + 2 * nand_weight A"
| "nand_weight (Binary r A B) =
     (if r = ''-&'' then 1 + nand_weight A + nand_weight B
      else if r = ''+'' then 52 + 12 * (nand_weight A + nand_weight B)
      else if r = ''<->'' then 105 + 24 * (nand_weight A + nand_weight B)
      else if r = ''-|'' then 15 + 4 * (nand_weight A + nand_weight B)
      else 7 + 2 * (nand_weight A + nand_weight B))"

lemma first_size: "first f = Some g \<Longrightarrow> size g < size f"
  by (cases f) auto

lemma second_size: "second f = Some g \<Longrightarrow> size g < size f"
  by (cases f) auto

lemma first_weight: "first f = Some g \<Longrightarrow> weight g < weight f"
  by (cases f) auto

lemma second_weight: "second f = Some g \<Longrightarrow> weight g < weight f"
  by (cases f) auto

lemma first_nand_weight: "first f = Some g \<Longrightarrow> nand_weight g < nand_weight f"
  by (cases f) auto

lemma second_nand_weight: "second f = Some g \<Longrightarrow> nand_weight g < nand_weight f"
  by (cases f) auto

lemma children_Binary:
  "first f = Some A \<Longrightarrow> second f = Some B \<Longrightarrow> f = Binary (root f) A B"
  by (cases f) auto

lemma not_constant_p: "\<not> is_constant ''p''"
  by (simp add: is_constant_def)

section \<open>The converters of propositions/operators.py\<close>

text \<open>
  Each converter returns \<open>Some\<close> formula, or \<open>None\<close> where the Python produces no
  formula: an attribute that is missing (\<^verbatim>\<open>AttributeError\<close>), or the end of
  \<^verbatim>\<open>to_not_and_or\<close>, which is reached without a \<^verbatim>\<open>return\<close>. The branches
  are in the order of the source; \<open>Leaf ''p''\<close> is the source's \<^verbatim>\<open>p = Formula('p')\<close>.
\<close>

function to_not_and_or :: "formula \<Rightarrow> formula option" where
  "to_not_and_or formula =
     (if is_variable (root formula) then Some formula
      else if is_constant (root formula) then
        (if root formula = ''T''
         then Some (Binary ''|'' (Leaf ''p'') (Unary ''~'' (Leaf ''p'')))
         else Some (Binary ''&'' (Leaf ''p'') (Unary ''~'' (Leaf ''p''))))
      else if is_unary (root formula) then
        do { A \<leftarrow> first formula; x \<leftarrow> to_not_and_or A; Some (Unary ''~'' x) }
      else do {
        A \<leftarrow> first formula;
        left \<leftarrow> to_not_and_or A;
        B \<leftarrow> second formula;
        right \<leftarrow> to_not_and_or B;
        if root formula = ''&'' \<or> root formula = ''|'' then
          Some (Binary (root formula) left right)
        else if root formula = ''->'' then
          Some (Binary ''|'' (Unary ''~'' left) right)
        else if root formula = ''+'' then
          Some (Binary ''|'' (Binary ''&'' left (Unary ''~'' right))
                             (Binary ''&'' (Unary ''~'' left) right))
        else if root formula = ''<->'' then
          Some (Binary ''|'' (Binary ''&'' left right)
                             (Binary ''&'' (Unary ''~'' left) (Unary ''~'' right)))
        else if root formula = ''-&'' then
          Some (Unary ''~'' (Binary ''&'' left right))
        else if root formula = ''-|'' then
          Some (Unary ''~'' (Binary ''|'' left right))
        else None })"
  by pat_completeness auto
termination
  by (relation "measure size") (auto simp: first_size second_size)

function to_not_and :: "formula \<Rightarrow> formula option" where
  "to_not_and formula =
     (if is_variable (root formula) then Some formula
      else if is_constant (root formula) then
        (if root formula = ''T''
         then Some (Unary ''~'' (Binary ''&'' (Leaf ''p'') (Unary ''~'' (Leaf ''p''))))
         else Some (Binary ''&'' (Leaf ''p'') (Unary ''~'' (Leaf ''p''))))
      else if is_unary (root formula) then
        do { A \<leftarrow> first formula; x \<leftarrow> to_not_and A; Some (Unary ''~'' x) }
      else do {
        A \<leftarrow> first formula;
        left \<leftarrow> to_not_and A;
        B \<leftarrow> second formula;
        right \<leftarrow> to_not_and B;
        if root formula = ''&'' then Some (Binary ''&'' left right)
        else if root formula = ''|'' then
          Some (Unary ''~'' (Binary ''&'' (Unary ''~'' left) (Unary ''~'' right)))
        else if root formula = ''->'' then
          to_not_and (Binary ''|'' (Unary ''~'' A) B)
        else if root formula = ''+'' then
          to_not_and (Binary ''|'' (Binary ''&'' A (Unary ''~'' B))
                                   (Binary ''&'' (Unary ''~'' A) B))
        else if root formula = ''<->'' then
          to_not_and (Binary ''|'' (Binary ''&'' A B)
                                   (Binary ''&'' (Unary ''~'' A) (Unary ''~'' B)))
        else if root formula = ''-&'' then
          Some (Unary ''~'' (Binary ''&'' left right))
        else if root formula = ''-|'' then
          to_not_and (Unary ''~'' (Binary ''|'' A B))
        else Some formula })"
  by pat_completeness auto
termination
proof (relation "measure weight", goal_cases)
  case 1
  show ?case by simp
next
  case (2 f A)
  then show ?case by (simp add: first_weight)
next
  case (3 f A)
  then show ?case by (simp add: first_weight)
next
  case (4 f A l B)
  then show ?case by (simp add: second_weight)
next
  case (5 f A l B r)
  then have "f = Binary ''->'' A B" using children_Binary by metis
  then show ?case by simp
next
  case (6 f A l B r)
  then have "f = Binary ''+'' A B" using children_Binary by metis
  then show ?case by simp
next
  case (7 f A l B r)
  then have "f = Binary ''<->'' A B" using children_Binary by metis
  then show ?case by simp
next
  case (8 f A l B r)
  then have "f = Binary ''-|'' A B" using children_Binary by metis
  then show ?case by simp
qed

function to_nand :: "formula \<Rightarrow> formula option" where
  "to_nand formula =
     (if is_variable (root formula) then Some formula
      else if is_constant (root formula) then
        (if root formula = ''T''
         then Some (Binary ''-&'' (Binary ''-&'' (Leaf ''p'') (Leaf ''p''))
                                  (Binary ''-&'' (Leaf ''p'') (Leaf ''p'')))
         else Some (Binary ''-&'' (Leaf ''p'') (Binary ''-&'' (Leaf ''p'') (Leaf ''p''))))
      else if is_unary (root formula) then
        do { A \<leftarrow> first formula; inner \<leftarrow> to_nand A; Some (Binary ''-&'' inner inner) }
      else do {
        A \<leftarrow> first formula;
        left \<leftarrow> to_nand A;
        B \<leftarrow> second formula;
        right \<leftarrow> to_nand B;
        if root formula = ''&'' then
          Some (Binary ''-&'' (Binary ''-&'' left right) (Binary ''-&'' left right))
        else if root formula = ''|'' then
          Some (Binary ''-&'' (Binary ''-&'' left left) (Binary ''-&'' right right))
        else if root formula = ''->'' then
          Some (Binary ''-&'' (Binary ''-&'' left left) right)
        else if root formula = ''+'' then
          do {
            a_or_b \<leftarrow> to_nand (Binary ''|'' A B);
            a_and_b \<leftarrow> to_nand (Binary ''&'' A B);
            to_nand (Binary ''&'' a_or_b (Binary ''-&'' a_and_b a_and_b))
          }
        else if root formula = ''<->'' then
          do { xor \<leftarrow> to_nand (Binary ''+'' A B); Some (Binary ''-&'' xor xor) }
        else if root formula = ''-&'' then Some (Binary ''-&'' left right)
        else if root formula = ''-|'' then
          do { or_formula \<leftarrow> to_nand (Binary ''|'' A B);
               Some (Binary ''-&'' or_formula or_formula) }
        else Some formula })"
  by pat_completeness auto

text \<open>
  On its domain, \<open>to_nand\<close> never returns a formula heavier than its argument; this is
  what makes the call on \<^verbatim>\<open>Formula('&', a_or_b, not_and)\<close> in the xor branch a call
  on a lighter formula.
\<close>

lemma to_nand_weight:
  "to_nand_dom f \<Longrightarrow> to_nand f = Some g \<Longrightarrow> nand_weight g \<le> nand_weight f"
proof (induction f arbitrary: g rule: to_nand.pinduct)
  case (1 f)
  note eq = to_nand.psimps[OF "1.hyps"]
  show ?case
  proof (cases "is_variable (root f) \<or> is_constant (root f)")
    case True
    show ?thesis
    proof (cases "is_variable (root f)")
      case True
      then have "g = f" using "1.prems" by (simp add: eq)
      then show ?thesis by simp
    next
      case False
      then have c: "is_constant (root f)" using True by simp
      have "7 \<le> nand_weight f" using c by (cases f) (auto simp: is_constant_def)
      moreover have "nand_weight g \<le> 7"
        using "1.prems" False c by (cases "root f = ''T''") (auto simp: eq not_constant_p)
      ultimately show ?thesis by simp
    qed
  next
    case False
    then have nv: "\<not> is_variable (root f)" and nc: "\<not> is_constant (root f)" by simp_all
    show ?thesis
    proof (cases "is_unary (root f)")
      case True
      then obtain A inner where A: "first f = Some A" and i: "to_nand A = Some inner"
        and g: "g = Binary ''-&'' inner inner"
        using "1.prems" nv nc by (simp add: eq bind_eq_Some_conv) blast
      have "nand_weight inner \<le> nand_weight A"
        using "1.IH"(1)[OF nv nc True A i] .
      then show ?thesis using g A True nv nc
        by (cases f) (auto simp: is_unary_def)
    next
      case nu: False
      obtain A left B right where A: "first f = Some A" and l: "to_nand A = Some left"
        and B: "second f = Some B" and r: "to_nand B = Some right"
        using "1.prems" nv nc nu by (simp add: eq bind_eq_Some_conv) blast
      have f: "f = Binary (root f) A B" using children_Binary[OF A B] .
      have wl: "nand_weight left \<le> nand_weight A" using "1.IH"(2)[OF nv nc nu A l] .
      have wr: "nand_weight right \<le> nand_weight B" using "1.IH"(3)[OF nv nc nu A l B r] .
      note ih = "1.IH"(4-)[OF nv nc nu A l B r]
      have rest: "(if root f = ''&'' then
          Some (Binary ''-&'' (Binary ''-&'' left right) (Binary ''-&'' left right))
        else if root f = ''|'' then
          Some (Binary ''-&'' (Binary ''-&'' left left) (Binary ''-&'' right right))
        else if root f = ''->'' then
          Some (Binary ''-&'' (Binary ''-&'' left left) right)
        else if root f = ''+'' then
          do {
            a_or_b \<leftarrow> to_nand (Binary ''|'' A B);
            a_and_b \<leftarrow> to_nand (Binary ''&'' A B);
            to_nand (Binary ''&'' a_or_b (Binary ''-&'' a_and_b a_and_b))
          }
        else if root f = ''<->'' then
          do { xor \<leftarrow> to_nand (Binary ''+'' A B); Some (Binary ''-&'' xor xor) }
        else if root f = ''-&'' then Some (Binary ''-&'' left right)
        else if root f = ''-|'' then
          do { or_formula \<leftarrow> to_nand (Binary ''|'' A B);
               Some (Binary ''-&'' or_formula or_formula) }
        else Some f) = Some g"
        using "1.prems" nv nc nu A l B r by (simp add: eq)
      consider (c_and) "root f = ''&''" | (c_or) "root f = ''|''" | (c_imp) "root f = ''->''"
        | (c_xor) "root f = ''+''" | (c_iff) "root f = ''<->''" | (c_nand) "root f = ''-&''"
        | (c_nor) "root f = ''-|''"
        | (c_other) "root f \<notin> {''&'', ''|'', ''->'', ''+'', ''<->'', ''-&'', ''-|''}"
        by blast
      then show ?thesis
      proof cases
        case c_and
        then have "g = Binary ''-&'' (Binary ''-&'' left right) (Binary ''-&'' left right)"
          using rest by simp
        moreover have "nand_weight f = 7 + 2 * (nand_weight A + nand_weight B)"
          using c_and by (subst f) simp
        ultimately show ?thesis using wl wr by simp
      next
        case c_or
        then have "g = Binary ''-&'' (Binary ''-&'' left left) (Binary ''-&'' right right)"
          using rest by simp
        moreover have "nand_weight f = 7 + 2 * (nand_weight A + nand_weight B)"
          using c_or by (subst f) simp
        ultimately show ?thesis using wl wr by simp
      next
        case c_imp
        then have "g = Binary ''-&'' (Binary ''-&'' left left) right"
          using rest by simp
        moreover have "nand_weight f = 7 + 2 * (nand_weight A + nand_weight B)"
          using c_imp by (subst f) simp
        ultimately show ?thesis using wl wr by simp
      next
        case c_xor
        then obtain ob ab where ob: "to_nand (Binary ''|'' A B) = Some ob"
          and ab: "to_nand (Binary ''&'' A B) = Some ab"
          and g: "to_nand (Binary ''&'' ob (Binary ''-&'' ab ab)) = Some g"
          using rest by (simp add: bind_eq_Some_conv) blast
        have n1: "root f \<noteq> ''&''" "root f \<noteq> ''|''" "root f \<noteq> ''->''" using c_xor by simp_all
        have "nand_weight ob \<le> nand_weight (Binary ''|'' A B)"
          using ih(1)[OF n1 c_xor ob] .
        moreover have "nand_weight ab \<le> nand_weight (Binary ''&'' A B)"
          using ih(2)[OF n1 c_xor ob ab] .
        moreover have "nand_weight g \<le> nand_weight (Binary ''&'' ob (Binary ''-&'' ab ab))"
          using ih(3)[OF n1 c_xor ob ab g] .
        moreover have "nand_weight f = 52 + 12 * (nand_weight A + nand_weight B)"
          using c_xor by (subst f) simp
        ultimately show ?thesis by simp
      next
        case c_iff
        then obtain x where x: "to_nand (Binary ''+'' A B) = Some x"
          and g: "g = Binary ''-&'' x x"
          using rest by (simp add: bind_eq_Some_conv) blast
        have n1: "root f \<noteq> ''&''" "root f \<noteq> ''|''" "root f \<noteq> ''->''" "root f \<noteq> ''+''"
          using c_iff by simp_all
        have "nand_weight x \<le> nand_weight (Binary ''+'' A B)"
          using ih(4)[OF n1 c_iff x] .
        moreover have "nand_weight f = 105 + 24 * (nand_weight A + nand_weight B)"
          using c_iff by (subst f) simp
        ultimately show ?thesis using g by simp
      next
        case c_nand
        then have "g = Binary ''-&'' left right"
          using rest by simp
        moreover have "nand_weight f = 1 + nand_weight A + nand_weight B"
          using c_nand by (subst f) simp
        ultimately show ?thesis using wl wr by simp
      next
        case c_nor
        then obtain x where x: "to_nand (Binary ''|'' A B) = Some x"
          and g: "g = Binary ''-&'' x x"
          using rest by (simp add: bind_eq_Some_conv) blast
        have n1: "root f \<noteq> ''&''" "root f \<noteq> ''|''" "root f \<noteq> ''->''" "root f \<noteq> ''+''"
          "root f \<noteq> ''<->''" "root f \<noteq> ''-&''"
          using c_nor by simp_all
        have "nand_weight x \<le> nand_weight (Binary ''|'' A B)"
          using ih(5)[OF n1 c_nor x] .
        moreover have "nand_weight f = 15 + 4 * (nand_weight A + nand_weight B)"
          using c_nor by (subst f) simp
        ultimately show ?thesis using g by simp
      next
        case c_other
        then have "g = f" using rest by auto
        then show ?thesis by simp
      qed
    qed
  qed
qed

termination to_nand
proof (relation "measure nand_weight", goal_cases)
  case 1
  show ?case by simp
next
  case (2 f A)
  then show ?case by (simp add: first_nand_weight)
next
  case (3 f A)
  then show ?case by (simp add: first_nand_weight)
next
  case (4 f A l B)
  then show ?case by (simp add: second_nand_weight)
next
  case (5 f A l B r)
  then have "f = Binary ''+'' A B" using children_Binary by metis
  then show ?case by simp
next
  case (6 f A l B r ob)
  then have "f = Binary ''+'' A B" using children_Binary by metis
  then show ?case by simp
next
  case (7 f A l B r ob ab)
  then have f: "f = Binary ''+'' A B" using children_Binary by metis
  have "nand_weight ob \<le> nand_weight (Binary ''|'' A B)"
    using 7 to_nand_weight by blast
  moreover have "nand_weight ab \<le> nand_weight (Binary ''&'' A B)"
    using 7 to_nand_weight by blast
  ultimately show ?case using f by simp
next
  case (8 f A l B r)
  then have "f = Binary ''<->'' A B" using children_Binary by metis
  then show ?case by simp
next
  case (9 f A l B r)
  then have "f = Binary ''-|'' A B" using children_Binary by metis
  then show ?case by simp
qed

function to_implies_not :: "formula \<Rightarrow> formula option" where
  "to_implies_not formula =
     (if is_variable (root formula) then Some formula
      else if is_constant (root formula) then
        (if root formula = ''T''
         then Some (Binary ''->'' (Leaf ''p'') (Leaf ''p''))
         else Some (Unary ''~'' (Binary ''->'' (Leaf ''p'') (Leaf ''p''))))
      else if is_unary (root formula) then
        do { A \<leftarrow> first formula; x \<leftarrow> to_implies_not A; Some (Unary ''~'' x) }
      else do {
        A \<leftarrow> first formula;
        left \<leftarrow> to_implies_not A;
        B \<leftarrow> second formula;
        right \<leftarrow> to_implies_not B;
        if root formula = ''->'' then Some (Binary ''->'' left right)
        else if root formula = ''&'' then
          Some (Unary ''~'' (Binary ''->'' left (Unary ''~'' right)))
        else if root formula = ''|'' then
          Some (Binary ''->'' (Unary ''~'' left) right)
        else if root formula = ''+'' then
          to_implies_not (Binary ''|'' (Binary ''&'' A (Unary ''~'' B))
                                       (Binary ''&'' (Unary ''~'' A) B))
        else if root formula = ''<->'' then
          to_implies_not (Binary ''|'' (Binary ''&'' A B)
                                       (Binary ''&'' (Unary ''~'' A) (Unary ''~'' B)))
        else if root formula = ''-&'' then
          to_implies_not (Unary ''~'' (Binary ''&'' A B))
        else if root formula = ''-|'' then
          to_implies_not (Unary ''~'' (Binary ''|'' A B))
        else Some formula })"
  by pat_completeness auto
termination
proof (relation "measure weight", goal_cases)
  case 1
  show ?case by simp
next
  case (2 f A)
  then show ?case by (simp add: first_weight)
next
  case (3 f A)
  then show ?case by (simp add: first_weight)
next
  case (4 f A l B)
  then show ?case by (simp add: second_weight)
next
  case (5 f A l B r)
  then have "f = Binary ''+'' A B" using children_Binary by metis
  then show ?case by simp
next
  case (6 f A l B r)
  then have "f = Binary ''<->'' A B" using children_Binary by metis
  then show ?case by simp
next
  case (7 f A l B r)
  then have "f = Binary ''-&'' A B" using children_Binary by metis
  then show ?case by simp
next
  case (8 f A l B r)
  then have "f = Binary ''-|'' A B" using children_Binary by metis
  then show ?case by simp
qed

function to_implies_false :: "formula \<Rightarrow> formula option" where
  "to_implies_false formula =
     (if is_variable (root formula) then Some formula
      else if is_constant (root formula) then
        (if root formula = ''F'' then Some (Leaf ''F'')
         else Some (Binary ''->'' (Leaf ''F'') (Leaf ''F'')))
      else if is_unary (root formula) then
        do { A \<leftarrow> first formula; inner \<leftarrow> to_implies_false A;
             Some (Binary ''->'' inner (Leaf ''F'')) }
      else do {
        A \<leftarrow> first formula;
        left \<leftarrow> to_implies_false A;
        B \<leftarrow> second formula;
        right \<leftarrow> to_implies_false B;
        if root formula = ''->'' then Some (Binary ''->'' left right)
        else if root formula = ''&'' then
          Some (Binary ''->'' (Binary ''->'' left (Binary ''->'' right (Leaf ''F'')))
                              (Leaf ''F''))
        else if root formula = ''|'' then
          Some (Binary ''->'' (Binary ''->'' left (Leaf ''F'')) right)
        else if root formula = ''+'' then
          to_implies_false (Binary ''|'' (Binary ''&'' A (Unary ''~'' B))
                                         (Binary ''&'' (Unary ''~'' A) B))
        else if root formula = ''<->'' then
          to_implies_false (Binary ''|'' (Binary ''&'' A B)
                                         (Binary ''&'' (Unary ''~'' A) (Unary ''~'' B)))
        else if root formula = ''-&'' then
          to_implies_false (Unary ''~'' (Binary ''&'' A B))
        else if root formula = ''-|'' then
          to_implies_false (Unary ''~'' (Binary ''|'' A B))
        else Some formula })"
  by pat_completeness auto
termination
proof (relation "measure weight", goal_cases)
  case 1
  show ?case by simp
next
  case (2 f A)
  then show ?case by (simp add: first_weight)
next
  case (3 f A)
  then show ?case by (simp add: first_weight)
next
  case (4 f A l B)
  then show ?case by (simp add: second_weight)
next
  case (5 f A l B r)
  then have "f = Binary ''+'' A B" using children_Binary by metis
  then show ?case by simp
next
  case (6 f A l B r)
  then have "f = Binary ''<->'' A B" using children_Binary by metis
  then show ?case by simp
next
  case (7 f A l B r)
  then have "f = Binary ''-&'' A B" using children_Binary by metis
  then show ?case by simp
next
  case (8 f A l B r)
  then have "f = Binary ''-|'' A B" using children_Binary by metis
  then show ?case by simp
qed

declare to_not_and_or.simps [simp del]
declare to_not_and.simps [simp del]
declare to_nand.simps [simp del]
declare to_implies_not.simps [simp del]
declare to_implies_false.simps [simp del]

section \<open>Well-formed formulas, case by case\<close>

lemma is_variable_p: "is_variable ''p''"
  by (simp add: is_digit_def)

lemma label_kinds:
  "\<not> is_variable ''T''" "\<not> is_variable ''F''" "\<not> is_variable ''~''"
  "\<not> is_variable ''&''" "\<not> is_variable ''|''" "\<not> is_variable ''->''"
  "\<not> is_variable ''+''" "\<not> is_variable ''<->''" "\<not> is_variable ''-&''"
  "\<not> is_variable ''-|''"
  "is_constant ''T''" "is_constant ''F''" "\<not> is_constant ''~''"
  "\<not> is_constant ''&''" "\<not> is_constant ''|''" "\<not> is_constant ''->''"
  "\<not> is_constant ''+''" "\<not> is_constant ''<->''" "\<not> is_constant ''-&''"
  "\<not> is_constant ''-|''"
  "is_unary ''~''"
  "\<not> is_unary ''&''" "\<not> is_unary ''|''" "\<not> is_unary ''->''"
  "\<not> is_unary ''+''" "\<not> is_unary ''<->''" "\<not> is_unary ''-&''"
  "\<not> is_unary ''-|''"
  by (simp_all add: is_constant_def is_unary_def)

lemma variable_not_constant: "is_variable r \<Longrightarrow> \<not> is_constant r"
  by (auto simp: is_constant_def)

lemma wf_formula_cases [consumes 1, case_names Var T F Not And Or Implies Xor Iff Nand Nor]:
  assumes "wf_formula f"
  obtains r where "f = Leaf r" "is_variable r"
  | "f = Leaf ''T''"
  | "f = Leaf ''F''"
  | A where "f = Unary ''~'' A" "wf_formula A"
  | A B where "f = Binary ''&'' A B" "wf_formula A" "wf_formula B"
  | A B where "f = Binary ''|'' A B" "wf_formula A" "wf_formula B"
  | A B where "f = Binary ''->'' A B" "wf_formula A" "wf_formula B"
  | A B where "f = Binary ''+'' A B" "wf_formula A" "wf_formula B"
  | A B where "f = Binary ''<->'' A B" "wf_formula A" "wf_formula B"
  | A B where "f = Binary ''-&'' A B" "wf_formula A" "wf_formula B"
  | A B where "f = Binary ''-|'' A B" "wf_formula A" "wf_formula B"
proof (cases f)
  case (Leaf r)
  then show ?thesis using assms that(1,2,3) by (auto simp: is_constant_def)
next
  case (Unary r A)
  then show ?thesis using assms that(4) by (auto simp: is_unary_def)
next
  case (Binary r A B)
  then have "r = ''&'' \<or> r = ''|'' \<or> r = ''->'' \<or> r = ''+'' \<or> r = ''<->'' \<or> r = ''-&'' \<or> r = ''-|''"
    using assms by (simp add: is_binary_def)
  moreover have "wf_formula A" "wf_formula B" using Binary assms by simp_all
  ultimately show ?thesis using Binary that(5-) by metis
qed

section \<open>The converters on each kind of root\<close>

lemma to_not_and_or_Var: "is_variable r \<Longrightarrow> to_not_and_or (Leaf r) = Some (Leaf r)"
  by (subst to_not_and_or.simps) simp

lemma to_not_and_or_T:
  "to_not_and_or (Leaf ''T'') = Some (Binary ''|'' (Leaf ''p'') (Unary ''~'' (Leaf ''p'')))"
  by (subst to_not_and_or.simps) (simp add: label_kinds)

lemma to_not_and_or_F:
  "to_not_and_or (Leaf ''F'') = Some (Binary ''&'' (Leaf ''p'') (Unary ''~'' (Leaf ''p'')))"
  by (subst to_not_and_or.simps) (simp add: label_kinds)

lemma to_not_and_or_Not:
  "to_not_and_or (Unary ''~'' A) = do { x \<leftarrow> to_not_and_or A; Some (Unary ''~'' x) }"
  by (subst to_not_and_or.simps) (simp add: label_kinds)

lemma to_not_and_or_And:
  "to_not_and_or (Binary ''&'' A B) =
     do { left \<leftarrow> to_not_and_or A; right \<leftarrow> to_not_and_or B;
          Some (Binary ''&'' left right) }"
  by (subst to_not_and_or.simps) (simp add: label_kinds)

lemma to_not_and_or_Or:
  "to_not_and_or (Binary ''|'' A B) =
     do { left \<leftarrow> to_not_and_or A; right \<leftarrow> to_not_and_or B;
          Some (Binary ''|'' left right) }"
  by (subst to_not_and_or.simps) (simp add: label_kinds)

lemma to_not_and_or_Implies:
  "to_not_and_or (Binary ''->'' A B) =
     do { left \<leftarrow> to_not_and_or A; right \<leftarrow> to_not_and_or B;
          Some (Binary ''|'' (Unary ''~'' left) right) }"
  by (subst to_not_and_or.simps) (simp add: label_kinds)

lemma to_not_and_or_Xor:
  "to_not_and_or (Binary ''+'' A B) =
     do { left \<leftarrow> to_not_and_or A; right \<leftarrow> to_not_and_or B;
          Some (Binary ''|'' (Binary ''&'' left (Unary ''~'' right))
                             (Binary ''&'' (Unary ''~'' left) right)) }"
  by (subst to_not_and_or.simps) (simp add: label_kinds)

lemma to_not_and_or_Iff:
  "to_not_and_or (Binary ''<->'' A B) =
     do { left \<leftarrow> to_not_and_or A; right \<leftarrow> to_not_and_or B;
          Some (Binary ''|'' (Binary ''&'' left right)
                             (Binary ''&'' (Unary ''~'' left) (Unary ''~'' right))) }"
  by (subst to_not_and_or.simps) (simp add: label_kinds)

lemma to_not_and_or_Nand:
  "to_not_and_or (Binary ''-&'' A B) =
     do { left \<leftarrow> to_not_and_or A; right \<leftarrow> to_not_and_or B;
          Some (Unary ''~'' (Binary ''&'' left right)) }"
  by (subst to_not_and_or.simps) (simp add: label_kinds)

lemma to_not_and_or_Nor:
  "to_not_and_or (Binary ''-|'' A B) =
     do { left \<leftarrow> to_not_and_or A; right \<leftarrow> to_not_and_or B;
          Some (Unary ''~'' (Binary ''|'' left right)) }"
  by (subst to_not_and_or.simps) (simp add: label_kinds)

lemmas to_not_and_or_unfold =
  to_not_and_or_Var to_not_and_or_T to_not_and_or_F to_not_and_or_Not to_not_and_or_And
  to_not_and_or_Or to_not_and_or_Implies to_not_and_or_Xor to_not_and_or_Iff
  to_not_and_or_Nand to_not_and_or_Nor

lemma to_not_and_Var: "is_variable r \<Longrightarrow> to_not_and (Leaf r) = Some (Leaf r)"
  by (subst to_not_and.simps) simp

lemma to_not_and_T:
  "to_not_and (Leaf ''T'') =
     Some (Unary ''~'' (Binary ''&'' (Leaf ''p'') (Unary ''~'' (Leaf ''p''))))"
  by (subst to_not_and.simps) (simp add: label_kinds)

lemma to_not_and_F:
  "to_not_and (Leaf ''F'') =
     Some (Binary ''&'' (Leaf ''p'') (Unary ''~'' (Leaf ''p'')))"
  by (subst to_not_and.simps) (simp add: label_kinds)

lemma to_not_and_Not:
  "to_not_and (Unary ''~'' A) =
     do { x \<leftarrow> to_not_and A; Some (Unary ''~'' x) }"
  by (subst to_not_and.simps) (simp add: label_kinds)

lemma to_not_and_And:
  "to_not_and (Binary ''&'' A B) =
     do { left \<leftarrow> to_not_and A; right \<leftarrow> to_not_and B;
          Some (Binary ''&'' left right) }"
  by (subst to_not_and.simps) (simp add: label_kinds)

lemma to_not_and_Or:
  "to_not_and (Binary ''|'' A B) =
     do { left \<leftarrow> to_not_and A; right \<leftarrow> to_not_and B;
          Some (Unary ''~'' (Binary ''&'' (Unary ''~'' left) (Unary ''~'' right))) }"
  by (subst to_not_and.simps) (simp add: label_kinds)

lemma to_not_and_Implies:
  "to_not_and (Binary ''->'' A B) =
     do { left \<leftarrow> to_not_and A; right \<leftarrow> to_not_and B;
          to_not_and (Binary ''|'' (Unary ''~'' A) B) }"
  by (subst to_not_and.simps) (simp add: label_kinds)

lemma to_not_and_Xor:
  "to_not_and (Binary ''+'' A B) =
     do { left \<leftarrow> to_not_and A; right \<leftarrow> to_not_and B;
          to_not_and (Binary ''|'' (Binary ''&'' A (Unary ''~'' B)) (Binary ''&'' (Unary ''~'' A) B)) }"
  by (subst to_not_and.simps) (simp add: label_kinds)

lemma to_not_and_Iff:
  "to_not_and (Binary ''<->'' A B) =
     do { left \<leftarrow> to_not_and A; right \<leftarrow> to_not_and B;
          to_not_and (Binary ''|'' (Binary ''&'' A B) (Binary ''&'' (Unary ''~'' A) (Unary ''~'' B))) }"
  by (subst to_not_and.simps) (simp add: label_kinds)

lemma to_not_and_Nand:
  "to_not_and (Binary ''-&'' A B) =
     do { left \<leftarrow> to_not_and A; right \<leftarrow> to_not_and B;
          Some (Unary ''~'' (Binary ''&'' left right)) }"
  by (subst to_not_and.simps) (simp add: label_kinds)

lemma to_not_and_Nor:
  "to_not_and (Binary ''-|'' A B) =
     do { left \<leftarrow> to_not_and A; right \<leftarrow> to_not_and B;
          to_not_and (Unary ''~'' (Binary ''|'' A B)) }"
  by (subst to_not_and.simps) (simp add: label_kinds)

lemmas to_not_and_unfold =
  to_not_and_Var to_not_and_T to_not_and_F to_not_and_Not
  to_not_and_And to_not_and_Or to_not_and_Implies to_not_and_Xor
  to_not_and_Iff to_not_and_Nand to_not_and_Nor

lemma to_nand_Var: "is_variable r \<Longrightarrow> to_nand (Leaf r) = Some (Leaf r)"
  by (subst to_nand.simps) simp

lemma to_nand_T:
  "to_nand (Leaf ''T'') =
     Some (Binary ''-&'' (Binary ''-&'' (Leaf ''p'') (Leaf ''p''))
                         (Binary ''-&'' (Leaf ''p'') (Leaf ''p'')))"
  by (subst to_nand.simps) (simp add: label_kinds)

lemma to_nand_F:
  "to_nand (Leaf ''F'') =
     Some (Binary ''-&'' (Leaf ''p'') (Binary ''-&'' (Leaf ''p'') (Leaf ''p'')))"
  by (subst to_nand.simps) (simp add: label_kinds)

lemma to_nand_Not:
  "to_nand (Unary ''~'' A) =
     do { inner \<leftarrow> to_nand A; Some (Binary ''-&'' inner inner) }"
  by (subst to_nand.simps) (simp add: label_kinds)

lemma to_nand_And:
  "to_nand (Binary ''&'' A B) =
     do { left \<leftarrow> to_nand A; right \<leftarrow> to_nand B;
          Some (Binary ''-&'' (Binary ''-&'' left right) (Binary ''-&'' left right)) }"
  by (subst to_nand.simps) (simp add: label_kinds)

lemma to_nand_Or:
  "to_nand (Binary ''|'' A B) =
     do { left \<leftarrow> to_nand A; right \<leftarrow> to_nand B;
          Some (Binary ''-&'' (Binary ''-&'' left left) (Binary ''-&'' right right)) }"
  by (subst to_nand.simps) (simp add: label_kinds)

lemma to_nand_Implies:
  "to_nand (Binary ''->'' A B) =
     do { left \<leftarrow> to_nand A; right \<leftarrow> to_nand B;
          Some (Binary ''-&'' (Binary ''-&'' left left) right) }"
  by (subst to_nand.simps) (simp add: label_kinds)

lemma to_nand_Xor:
  "to_nand (Binary ''+'' A B) =
     do { left \<leftarrow> to_nand A; right \<leftarrow> to_nand B;
          a_or_b \<leftarrow> to_nand (Binary ''|'' A B);
          a_and_b \<leftarrow> to_nand (Binary ''&'' A B);
          to_nand (Binary ''&'' a_or_b (Binary ''-&'' a_and_b a_and_b)) }"
  by (subst to_nand.simps) (simp add: label_kinds)

lemma to_nand_Iff:
  "to_nand (Binary ''<->'' A B) =
     do { left \<leftarrow> to_nand A; right \<leftarrow> to_nand B;
          xor \<leftarrow> to_nand (Binary ''+'' A B); Some (Binary ''-&'' xor xor) }"
  by (subst to_nand.simps) (simp add: label_kinds)

lemma to_nand_Nand:
  "to_nand (Binary ''-&'' A B) =
     do { left \<leftarrow> to_nand A; right \<leftarrow> to_nand B;
          Some (Binary ''-&'' left right) }"
  by (subst to_nand.simps) (simp add: label_kinds)

lemma to_nand_Nor:
  "to_nand (Binary ''-|'' A B) =
     do { left \<leftarrow> to_nand A; right \<leftarrow> to_nand B;
          or_formula \<leftarrow> to_nand (Binary ''|'' A B);
          Some (Binary ''-&'' or_formula or_formula) }"
  by (subst to_nand.simps) (simp add: label_kinds)

lemmas to_nand_unfold =
  to_nand_Var to_nand_T to_nand_F to_nand_Not
  to_nand_And to_nand_Or to_nand_Implies to_nand_Xor
  to_nand_Iff to_nand_Nand to_nand_Nor

lemma to_implies_not_Var: "is_variable r \<Longrightarrow> to_implies_not (Leaf r) = Some (Leaf r)"
  by (subst to_implies_not.simps) simp

lemma to_implies_not_T:
  "to_implies_not (Leaf ''T'') =
     Some (Binary ''->'' (Leaf ''p'') (Leaf ''p''))"
  by (subst to_implies_not.simps) (simp add: label_kinds)

lemma to_implies_not_F:
  "to_implies_not (Leaf ''F'') =
     Some (Unary ''~'' (Binary ''->'' (Leaf ''p'') (Leaf ''p'')))"
  by (subst to_implies_not.simps) (simp add: label_kinds)

lemma to_implies_not_Not:
  "to_implies_not (Unary ''~'' A) =
     do { x \<leftarrow> to_implies_not A; Some (Unary ''~'' x) }"
  by (subst to_implies_not.simps) (simp add: label_kinds)

lemma to_implies_not_And:
  "to_implies_not (Binary ''&'' A B) =
     do { left \<leftarrow> to_implies_not A; right \<leftarrow> to_implies_not B;
          Some (Unary ''~'' (Binary ''->'' left (Unary ''~'' right))) }"
  by (subst to_implies_not.simps) (simp add: label_kinds)

lemma to_implies_not_Or:
  "to_implies_not (Binary ''|'' A B) =
     do { left \<leftarrow> to_implies_not A; right \<leftarrow> to_implies_not B;
          Some (Binary ''->'' (Unary ''~'' left) right) }"
  by (subst to_implies_not.simps) (simp add: label_kinds)

lemma to_implies_not_Implies:
  "to_implies_not (Binary ''->'' A B) =
     do { left \<leftarrow> to_implies_not A; right \<leftarrow> to_implies_not B;
          Some (Binary ''->'' left right) }"
  by (subst to_implies_not.simps) (simp add: label_kinds)

lemma to_implies_not_Xor:
  "to_implies_not (Binary ''+'' A B) =
     do { left \<leftarrow> to_implies_not A; right \<leftarrow> to_implies_not B;
          to_implies_not (Binary ''|'' (Binary ''&'' A (Unary ''~'' B)) (Binary ''&'' (Unary ''~'' A) B)) }"
  by (subst to_implies_not.simps) (simp add: label_kinds)

lemma to_implies_not_Iff:
  "to_implies_not (Binary ''<->'' A B) =
     do { left \<leftarrow> to_implies_not A; right \<leftarrow> to_implies_not B;
          to_implies_not (Binary ''|'' (Binary ''&'' A B) (Binary ''&'' (Unary ''~'' A) (Unary ''~'' B))) }"
  by (subst to_implies_not.simps) (simp add: label_kinds)

lemma to_implies_not_Nand:
  "to_implies_not (Binary ''-&'' A B) =
     do { left \<leftarrow> to_implies_not A; right \<leftarrow> to_implies_not B;
          to_implies_not (Unary ''~'' (Binary ''&'' A B)) }"
  by (subst to_implies_not.simps) (simp add: label_kinds)

lemma to_implies_not_Nor:
  "to_implies_not (Binary ''-|'' A B) =
     do { left \<leftarrow> to_implies_not A; right \<leftarrow> to_implies_not B;
          to_implies_not (Unary ''~'' (Binary ''|'' A B)) }"
  by (subst to_implies_not.simps) (simp add: label_kinds)

lemmas to_implies_not_unfold =
  to_implies_not_Var to_implies_not_T to_implies_not_F to_implies_not_Not
  to_implies_not_And to_implies_not_Or to_implies_not_Implies to_implies_not_Xor
  to_implies_not_Iff to_implies_not_Nand to_implies_not_Nor

lemma to_implies_false_Var: "is_variable r \<Longrightarrow> to_implies_false (Leaf r) = Some (Leaf r)"
  by (subst to_implies_false.simps) simp

lemma to_implies_false_T:
  "to_implies_false (Leaf ''T'') =
     Some (Binary ''->'' (Leaf ''F'') (Leaf ''F''))"
  by (subst to_implies_false.simps) (simp add: label_kinds)

lemma to_implies_false_F:
  "to_implies_false (Leaf ''F'') =
     Some (Leaf ''F'')"
  by (subst to_implies_false.simps) (simp add: label_kinds)

lemma to_implies_false_Not:
  "to_implies_false (Unary ''~'' A) =
     do { inner \<leftarrow> to_implies_false A; Some (Binary ''->'' inner (Leaf ''F'')) }"
  by (subst to_implies_false.simps) (simp add: label_kinds)

lemma to_implies_false_And:
  "to_implies_false (Binary ''&'' A B) =
     do { left \<leftarrow> to_implies_false A; right \<leftarrow> to_implies_false B;
          Some (Binary ''->'' (Binary ''->'' left (Binary ''->'' right (Leaf ''F''))) (Leaf ''F'')) }"
  by (subst to_implies_false.simps) (simp add: label_kinds)

lemma to_implies_false_Or:
  "to_implies_false (Binary ''|'' A B) =
     do { left \<leftarrow> to_implies_false A; right \<leftarrow> to_implies_false B;
          Some (Binary ''->'' (Binary ''->'' left (Leaf ''F'')) right) }"
  by (subst to_implies_false.simps) (simp add: label_kinds)

lemma to_implies_false_Implies:
  "to_implies_false (Binary ''->'' A B) =
     do { left \<leftarrow> to_implies_false A; right \<leftarrow> to_implies_false B;
          Some (Binary ''->'' left right) }"
  by (subst to_implies_false.simps) (simp add: label_kinds)

lemma to_implies_false_Xor:
  "to_implies_false (Binary ''+'' A B) =
     do { left \<leftarrow> to_implies_false A; right \<leftarrow> to_implies_false B;
          to_implies_false (Binary ''|'' (Binary ''&'' A (Unary ''~'' B)) (Binary ''&'' (Unary ''~'' A) B)) }"
  by (subst to_implies_false.simps) (simp add: label_kinds)

lemma to_implies_false_Iff:
  "to_implies_false (Binary ''<->'' A B) =
     do { left \<leftarrow> to_implies_false A; right \<leftarrow> to_implies_false B;
          to_implies_false (Binary ''|'' (Binary ''&'' A B) (Binary ''&'' (Unary ''~'' A) (Unary ''~'' B))) }"
  by (subst to_implies_false.simps) (simp add: label_kinds)

lemma to_implies_false_Nand:
  "to_implies_false (Binary ''-&'' A B) =
     do { left \<leftarrow> to_implies_false A; right \<leftarrow> to_implies_false B;
          to_implies_false (Unary ''~'' (Binary ''&'' A B)) }"
  by (subst to_implies_false.simps) (simp add: label_kinds)

lemma to_implies_false_Nor:
  "to_implies_false (Binary ''-|'' A B) =
     do { left \<leftarrow> to_implies_false A; right \<leftarrow> to_implies_false B;
          to_implies_false (Unary ''~'' (Binary ''|'' A B)) }"
  by (subst to_implies_false.simps) (simp add: label_kinds)

lemmas to_implies_false_unfold =
  to_implies_false_Var to_implies_false_T to_implies_false_F to_implies_false_Not
  to_implies_false_And to_implies_false_Or to_implies_false_Implies to_implies_false_Xor
  to_implies_false_Iff to_implies_false_Nand to_implies_false_Nor

section \<open>The intermediate formulas of the detours\<close>

lemma evaluate_implies_detour:
  "evaluate (Binary ''|'' (Unary ''~'' A) B) m = evaluate (Binary ''->'' A B) m"
  by (cases "evaluate A m"; cases "evaluate B m") (simp_all add: label_kinds)

lemma evaluate_xor_detour:
  "evaluate (Binary ''|'' (Binary ''&'' A (Unary ''~'' B)) (Binary ''&'' (Unary ''~'' A) B)) m
     = evaluate (Binary ''+'' A B) m"
  by (cases "evaluate A m"; cases "evaluate B m") (auto simp: label_kinds)

lemma evaluate_iff_detour:
  "evaluate (Binary ''|'' (Binary ''&'' A B) (Binary ''&'' (Unary ''~'' A) (Unary ''~'' B))) m
     = evaluate (Binary ''<->'' A B) m"
  by (cases "evaluate A m"; cases "evaluate B m") (auto simp: label_kinds)

lemma evaluate_nand_detour:
  "evaluate (Unary ''~'' (Binary ''&'' A B)) m = evaluate (Binary ''-&'' A B) m"
  by (cases "evaluate A m"; cases "evaluate B m") (simp_all add: label_kinds)

lemma evaluate_nor_detour:
  "evaluate (Unary ''~'' (Binary ''|'' A B)) m = evaluate (Binary ''-|'' A B) m"
  by (cases "evaluate A m"; cases "evaluate B m") (simp_all add: label_kinds)

lemmas evaluate_detour =
  evaluate_implies_detour evaluate_xor_detour evaluate_iff_detour evaluate_nand_detour
  evaluate_nor_detour

section \<open>Correctness of the converters on well-formed formulas\<close>

lemma to_not_and_or_correct:
  "wf_formula f \<Longrightarrow>
   \<exists>g. to_not_and_or f = Some g \<and> wf_formula g \<and> operators g \<subseteq> {''~'', ''&'', ''|''}
     \<and> variables g \<subseteq> insert ''p'' (variables f)
     \<and> (\<forall>m. evaluate g m = evaluate f m)"
proof (induction f)
  case (Leaf r)
  then show ?case
    by (cases rule: wf_formula_cases)
       (auto simp: to_not_and_or_unfold label_kinds is_variable_p is_binary_def)
next
  case (Unary r A)
  from Unary.prems show ?case
  proof (cases rule: wf_formula_cases)
    case (Not A')
    then show ?thesis using Unary.IH
      by (auto simp: to_not_and_or_unfold label_kinds)
  qed simp_all
next
  case (Binary r A B)
  from Binary.prems have wA: "wf_formula A" and wB: "wf_formula B" by simp_all
  from Binary.IH(1)[OF wA] obtain a where a: "to_not_and_or A = Some a" "wf_formula a"
    "operators a \<subseteq> {''~'', ''&'', ''|''}" "variables a \<subseteq> insert ''p'' (variables A)"
    "\<And>m. evaluate a m = evaluate A m" by blast
  from Binary.IH(2)[OF wB] obtain b where b: "to_not_and_or B = Some b" "wf_formula b"
    "operators b \<subseteq> {''~'', ''&'', ''|''}" "variables b \<subseteq> insert ''p'' (variables B)"
    "\<And>m. evaluate b m = evaluate B m" by blast
  from Binary.prems show ?case
    by (cases rule: wf_formula_cases)
       (use a b in \<open>auto simp: to_not_and_or_unfold label_kinds is_binary_def
                     split: Option.bind_split\<close>)
qed

lemma to_not_and_correct:
  "wf_formula f \<Longrightarrow>
   \<exists>g. to_not_and f = Some g \<and> wf_formula g \<and> operators g \<subseteq> {''~'', ''&''}
     \<and> variables g \<subseteq> insert ''p'' (variables f)
     \<and> (\<forall>m. evaluate g m = evaluate f m)"
proof (induction "weight f" arbitrary: f rule: less_induct)
  case less
  have IH: "\<exists>g. to_not_and h = Some g \<and> wf_formula g \<and> operators g \<subseteq> {''~'', ''&''}
      \<and> variables g \<subseteq> insert ''p'' (variables h)
      \<and> (\<forall>m. evaluate g m = evaluate h m)"
    if "weight h < weight f" "wf_formula h" for h
    using less.hyps[OF that] .
  from less.prems show ?case
  proof (cases rule: wf_formula_cases)
    case (Var r)
    then show ?thesis by (simp add: to_not_and_unfold)
  next
    case T
    then show ?thesis
      by (simp add: to_not_and_unfold label_kinds is_variable_p is_binary_def)
  next
    case F
    then show ?thesis
      by (simp add: to_not_and_unfold label_kinds is_variable_p is_binary_def)
  next
    case (Not A)
    then have "weight A < weight f" by simp
    from IH[OF this Not(2)] obtain a where a:
      "to_not_and A = Some a" "wf_formula a"
      "operators a \<subseteq> {''~'', ''&''}" "variables a \<subseteq> insert ''p'' (variables A)"
      "\<And>m. evaluate a m = evaluate A m"
      by blast
    show ?thesis unfolding Not(1)
      by (rule exI[of _ "Unary ''~'' a"])
         (use a in \<open>auto simp: to_not_and_Not label_kinds is_binary_def split: Option.bind_split\<close>)
  next
    case (And A B)
    then have "weight A < weight f" "weight B < weight f" by simp_all
    from IH[OF this(1) And(2)] obtain a where a:
      "to_not_and A = Some a" "wf_formula a"
      "operators a \<subseteq> {''~'', ''&''}" "variables a \<subseteq> insert ''p'' (variables A)"
      "\<And>m. evaluate a m = evaluate A m"
      by blast
    from IH[OF \<open>weight B < weight f\<close> And(3)] obtain b where b:
      "to_not_and B = Some b" "wf_formula b"
      "operators b \<subseteq> {''~'', ''&''}" "variables b \<subseteq> insert ''p'' (variables B)"
      "\<And>m. evaluate b m = evaluate B m"
      by blast
    show ?thesis unfolding And(1)
      by (rule exI[of _ "Binary ''&'' a b"])
         (use a b in \<open>auto simp: to_not_and_And label_kinds is_binary_def split: Option.bind_split\<close>)
  next
    case (Or A B)
    then have "weight A < weight f" "weight B < weight f" by simp_all
    from IH[OF this(1) Or(2)] obtain a where a:
      "to_not_and A = Some a" "wf_formula a"
      "operators a \<subseteq> {''~'', ''&''}" "variables a \<subseteq> insert ''p'' (variables A)"
      "\<And>m. evaluate a m = evaluate A m"
      by blast
    from IH[OF \<open>weight B < weight f\<close> Or(3)] obtain b where b:
      "to_not_and B = Some b" "wf_formula b"
      "operators b \<subseteq> {''~'', ''&''}" "variables b \<subseteq> insert ''p'' (variables B)"
      "\<And>m. evaluate b m = evaluate B m"
      by blast
    show ?thesis unfolding Or(1)
      by (rule exI[of _ "Unary ''~'' (Binary ''&'' (Unary ''~'' a) (Unary ''~'' b))"])
         (use a b in \<open>auto simp: to_not_and_Or label_kinds is_binary_def split: Option.bind_split\<close>)
  next
    case (Implies A B)
    then have "weight A < weight f" "weight B < weight f" by simp_all
    from IH[OF this(1) Implies(2)] obtain a where a:
      "to_not_and A = Some a" "wf_formula a"
      "operators a \<subseteq> {''~'', ''&''}" "variables a \<subseteq> insert ''p'' (variables A)"
      "\<And>m. evaluate a m = evaluate A m"
      by blast
    from IH[OF \<open>weight B < weight f\<close> Implies(3)] obtain b where b:
      "to_not_and B = Some b" "wf_formula b"
      "operators b \<subseteq> {''~'', ''&''}" "variables b \<subseteq> insert ''p'' (variables B)"
      "\<And>m. evaluate b m = evaluate B m"
      by blast
    let ?D = "Binary ''|'' (Unary ''~'' A) B"
    have "weight ?D < weight f" "wf_formula ?D"
      using Implies by (simp_all add: label_kinds is_binary_def)
    from IH[OF this] obtain g where g:
      "to_not_and ?D = Some g" "wf_formula g"
      "operators g \<subseteq> {''~'', ''&''}" "variables g \<subseteq> insert ''p'' (variables ?D)"
      "\<And>m. evaluate g m = evaluate ?D m"
      by blast
    have v: "variables ?D = variables f" using Implies(1) by auto
    have e: "evaluate ?D m = evaluate f m" for m
      unfolding Implies(1) by (rule evaluate_detour)
    have "to_not_and f = Some g" unfolding Implies(1) by (simp add: to_not_and_Implies a b g)
    then show ?thesis using g v e by simp
  next
    case (Xor A B)
    then have "weight A < weight f" "weight B < weight f" by simp_all
    from IH[OF this(1) Xor(2)] obtain a where a:
      "to_not_and A = Some a" "wf_formula a"
      "operators a \<subseteq> {''~'', ''&''}" "variables a \<subseteq> insert ''p'' (variables A)"
      "\<And>m. evaluate a m = evaluate A m"
      by blast
    from IH[OF \<open>weight B < weight f\<close> Xor(3)] obtain b where b:
      "to_not_and B = Some b" "wf_formula b"
      "operators b \<subseteq> {''~'', ''&''}" "variables b \<subseteq> insert ''p'' (variables B)"
      "\<And>m. evaluate b m = evaluate B m"
      by blast
    let ?D = "Binary ''|'' (Binary ''&'' A (Unary ''~'' B)) (Binary ''&'' (Unary ''~'' A) B)"
    have "weight ?D < weight f" "wf_formula ?D"
      using Xor by (simp_all add: label_kinds is_binary_def)
    from IH[OF this] obtain g where g:
      "to_not_and ?D = Some g" "wf_formula g"
      "operators g \<subseteq> {''~'', ''&''}" "variables g \<subseteq> insert ''p'' (variables ?D)"
      "\<And>m. evaluate g m = evaluate ?D m"
      by blast
    have v: "variables ?D = variables f" using Xor(1) by auto
    have e: "evaluate ?D m = evaluate f m" for m
      unfolding Xor(1) by (rule evaluate_detour)
    have "to_not_and f = Some g" unfolding Xor(1) by (simp add: to_not_and_Xor a b g)
    then show ?thesis using g v e by simp
  next
    case (Iff A B)
    then have "weight A < weight f" "weight B < weight f" by simp_all
    from IH[OF this(1) Iff(2)] obtain a where a:
      "to_not_and A = Some a" "wf_formula a"
      "operators a \<subseteq> {''~'', ''&''}" "variables a \<subseteq> insert ''p'' (variables A)"
      "\<And>m. evaluate a m = evaluate A m"
      by blast
    from IH[OF \<open>weight B < weight f\<close> Iff(3)] obtain b where b:
      "to_not_and B = Some b" "wf_formula b"
      "operators b \<subseteq> {''~'', ''&''}" "variables b \<subseteq> insert ''p'' (variables B)"
      "\<And>m. evaluate b m = evaluate B m"
      by blast
    let ?D = "Binary ''|'' (Binary ''&'' A B) (Binary ''&'' (Unary ''~'' A) (Unary ''~'' B))"
    have "weight ?D < weight f" "wf_formula ?D"
      using Iff by (simp_all add: label_kinds is_binary_def)
    from IH[OF this] obtain g where g:
      "to_not_and ?D = Some g" "wf_formula g"
      "operators g \<subseteq> {''~'', ''&''}" "variables g \<subseteq> insert ''p'' (variables ?D)"
      "\<And>m. evaluate g m = evaluate ?D m"
      by blast
    have v: "variables ?D = variables f" using Iff(1) by auto
    have e: "evaluate ?D m = evaluate f m" for m
      unfolding Iff(1) by (rule evaluate_detour)
    have "to_not_and f = Some g" unfolding Iff(1) by (simp add: to_not_and_Iff a b g)
    then show ?thesis using g v e by simp
  next
    case (Nand A B)
    then have "weight A < weight f" "weight B < weight f" by simp_all
    from IH[OF this(1) Nand(2)] obtain a where a:
      "to_not_and A = Some a" "wf_formula a"
      "operators a \<subseteq> {''~'', ''&''}" "variables a \<subseteq> insert ''p'' (variables A)"
      "\<And>m. evaluate a m = evaluate A m"
      by blast
    from IH[OF \<open>weight B < weight f\<close> Nand(3)] obtain b where b:
      "to_not_and B = Some b" "wf_formula b"
      "operators b \<subseteq> {''~'', ''&''}" "variables b \<subseteq> insert ''p'' (variables B)"
      "\<And>m. evaluate b m = evaluate B m"
      by blast
    show ?thesis unfolding Nand(1)
      by (rule exI[of _ "Unary ''~'' (Binary ''&'' a b)"])
         (use a b in \<open>auto simp: to_not_and_Nand label_kinds is_binary_def split: Option.bind_split\<close>)
  next
    case (Nor A B)
    then have "weight A < weight f" "weight B < weight f" by simp_all
    from IH[OF this(1) Nor(2)] obtain a where a:
      "to_not_and A = Some a" "wf_formula a"
      "operators a \<subseteq> {''~'', ''&''}" "variables a \<subseteq> insert ''p'' (variables A)"
      "\<And>m. evaluate a m = evaluate A m"
      by blast
    from IH[OF \<open>weight B < weight f\<close> Nor(3)] obtain b where b:
      "to_not_and B = Some b" "wf_formula b"
      "operators b \<subseteq> {''~'', ''&''}" "variables b \<subseteq> insert ''p'' (variables B)"
      "\<And>m. evaluate b m = evaluate B m"
      by blast
    let ?D = "Unary ''~'' (Binary ''|'' A B)"
    have "weight ?D < weight f" "wf_formula ?D"
      using Nor by (simp_all add: label_kinds is_binary_def)
    from IH[OF this] obtain g where g:
      "to_not_and ?D = Some g" "wf_formula g"
      "operators g \<subseteq> {''~'', ''&''}" "variables g \<subseteq> insert ''p'' (variables ?D)"
      "\<And>m. evaluate g m = evaluate ?D m"
      by blast
    have v: "variables ?D = variables f" using Nor(1) by auto
    have e: "evaluate ?D m = evaluate f m" for m
      unfolding Nor(1) by (rule evaluate_detour)
    have "to_not_and f = Some g" unfolding Nor(1) by (simp add: to_not_and_Nor a b g)
    then show ?thesis using g v e by simp
  qed
qed

lemma to_implies_not_correct:
  "wf_formula f \<Longrightarrow>
   \<exists>g. to_implies_not f = Some g \<and> wf_formula g \<and> operators g \<subseteq> {''->'', ''~''}
     \<and> variables g \<subseteq> insert ''p'' (variables f)
     \<and> (\<forall>m. evaluate g m = evaluate f m)"
proof (induction "weight f" arbitrary: f rule: less_induct)
  case less
  have IH: "\<exists>g. to_implies_not h = Some g \<and> wf_formula g \<and> operators g \<subseteq> {''->'', ''~''}
      \<and> variables g \<subseteq> insert ''p'' (variables h)
      \<and> (\<forall>m. evaluate g m = evaluate h m)"
    if "weight h < weight f" "wf_formula h" for h
    using less.hyps[OF that] .
  from less.prems show ?case
  proof (cases rule: wf_formula_cases)
    case (Var r)
    then show ?thesis by (simp add: to_implies_not_unfold)
  next
    case T
    then show ?thesis
      by (simp add: to_implies_not_unfold label_kinds is_variable_p is_binary_def)
  next
    case F
    then show ?thesis
      by (simp add: to_implies_not_unfold label_kinds is_variable_p is_binary_def)
  next
    case (Not A)
    then have "weight A < weight f" by simp
    from IH[OF this Not(2)] obtain a where a:
      "to_implies_not A = Some a" "wf_formula a"
      "operators a \<subseteq> {''->'', ''~''}" "variables a \<subseteq> insert ''p'' (variables A)"
      "\<And>m. evaluate a m = evaluate A m"
      by blast
    show ?thesis unfolding Not(1)
      by (rule exI[of _ "Unary ''~'' a"])
         (use a in \<open>auto simp: to_implies_not_Not label_kinds is_binary_def split: Option.bind_split\<close>)
  next
    case (And A B)
    then have "weight A < weight f" "weight B < weight f" by simp_all
    from IH[OF this(1) And(2)] obtain a where a:
      "to_implies_not A = Some a" "wf_formula a"
      "operators a \<subseteq> {''->'', ''~''}" "variables a \<subseteq> insert ''p'' (variables A)"
      "\<And>m. evaluate a m = evaluate A m"
      by blast
    from IH[OF \<open>weight B < weight f\<close> And(3)] obtain b where b:
      "to_implies_not B = Some b" "wf_formula b"
      "operators b \<subseteq> {''->'', ''~''}" "variables b \<subseteq> insert ''p'' (variables B)"
      "\<And>m. evaluate b m = evaluate B m"
      by blast
    show ?thesis unfolding And(1)
      by (rule exI[of _ "Unary ''~'' (Binary ''->'' a (Unary ''~'' b))"])
         (use a b in \<open>auto simp: to_implies_not_And label_kinds is_binary_def split: Option.bind_split\<close>)
  next
    case (Or A B)
    then have "weight A < weight f" "weight B < weight f" by simp_all
    from IH[OF this(1) Or(2)] obtain a where a:
      "to_implies_not A = Some a" "wf_formula a"
      "operators a \<subseteq> {''->'', ''~''}" "variables a \<subseteq> insert ''p'' (variables A)"
      "\<And>m. evaluate a m = evaluate A m"
      by blast
    from IH[OF \<open>weight B < weight f\<close> Or(3)] obtain b where b:
      "to_implies_not B = Some b" "wf_formula b"
      "operators b \<subseteq> {''->'', ''~''}" "variables b \<subseteq> insert ''p'' (variables B)"
      "\<And>m. evaluate b m = evaluate B m"
      by blast
    show ?thesis unfolding Or(1)
      by (rule exI[of _ "Binary ''->'' (Unary ''~'' a) b"])
         (use a b in \<open>auto simp: to_implies_not_Or label_kinds is_binary_def split: Option.bind_split\<close>)
  next
    case (Implies A B)
    then have "weight A < weight f" "weight B < weight f" by simp_all
    from IH[OF this(1) Implies(2)] obtain a where a:
      "to_implies_not A = Some a" "wf_formula a"
      "operators a \<subseteq> {''->'', ''~''}" "variables a \<subseteq> insert ''p'' (variables A)"
      "\<And>m. evaluate a m = evaluate A m"
      by blast
    from IH[OF \<open>weight B < weight f\<close> Implies(3)] obtain b where b:
      "to_implies_not B = Some b" "wf_formula b"
      "operators b \<subseteq> {''->'', ''~''}" "variables b \<subseteq> insert ''p'' (variables B)"
      "\<And>m. evaluate b m = evaluate B m"
      by blast
    show ?thesis unfolding Implies(1)
      by (rule exI[of _ "Binary ''->'' a b"])
         (use a b in \<open>auto simp: to_implies_not_Implies label_kinds is_binary_def split: Option.bind_split\<close>)
  next
    case (Xor A B)
    then have "weight A < weight f" "weight B < weight f" by simp_all
    from IH[OF this(1) Xor(2)] obtain a where a:
      "to_implies_not A = Some a" "wf_formula a"
      "operators a \<subseteq> {''->'', ''~''}" "variables a \<subseteq> insert ''p'' (variables A)"
      "\<And>m. evaluate a m = evaluate A m"
      by blast
    from IH[OF \<open>weight B < weight f\<close> Xor(3)] obtain b where b:
      "to_implies_not B = Some b" "wf_formula b"
      "operators b \<subseteq> {''->'', ''~''}" "variables b \<subseteq> insert ''p'' (variables B)"
      "\<And>m. evaluate b m = evaluate B m"
      by blast
    let ?D = "Binary ''|'' (Binary ''&'' A (Unary ''~'' B)) (Binary ''&'' (Unary ''~'' A) B)"
    have "weight ?D < weight f" "wf_formula ?D"
      using Xor by (simp_all add: label_kinds is_binary_def)
    from IH[OF this] obtain g where g:
      "to_implies_not ?D = Some g" "wf_formula g"
      "operators g \<subseteq> {''->'', ''~''}" "variables g \<subseteq> insert ''p'' (variables ?D)"
      "\<And>m. evaluate g m = evaluate ?D m"
      by blast
    have v: "variables ?D = variables f" using Xor(1) by auto
    have e: "evaluate ?D m = evaluate f m" for m
      unfolding Xor(1) by (rule evaluate_detour)
    have "to_implies_not f = Some g" unfolding Xor(1) by (simp add: to_implies_not_Xor a b g)
    then show ?thesis using g v e by simp
  next
    case (Iff A B)
    then have "weight A < weight f" "weight B < weight f" by simp_all
    from IH[OF this(1) Iff(2)] obtain a where a:
      "to_implies_not A = Some a" "wf_formula a"
      "operators a \<subseteq> {''->'', ''~''}" "variables a \<subseteq> insert ''p'' (variables A)"
      "\<And>m. evaluate a m = evaluate A m"
      by blast
    from IH[OF \<open>weight B < weight f\<close> Iff(3)] obtain b where b:
      "to_implies_not B = Some b" "wf_formula b"
      "operators b \<subseteq> {''->'', ''~''}" "variables b \<subseteq> insert ''p'' (variables B)"
      "\<And>m. evaluate b m = evaluate B m"
      by blast
    let ?D = "Binary ''|'' (Binary ''&'' A B) (Binary ''&'' (Unary ''~'' A) (Unary ''~'' B))"
    have "weight ?D < weight f" "wf_formula ?D"
      using Iff by (simp_all add: label_kinds is_binary_def)
    from IH[OF this] obtain g where g:
      "to_implies_not ?D = Some g" "wf_formula g"
      "operators g \<subseteq> {''->'', ''~''}" "variables g \<subseteq> insert ''p'' (variables ?D)"
      "\<And>m. evaluate g m = evaluate ?D m"
      by blast
    have v: "variables ?D = variables f" using Iff(1) by auto
    have e: "evaluate ?D m = evaluate f m" for m
      unfolding Iff(1) by (rule evaluate_detour)
    have "to_implies_not f = Some g" unfolding Iff(1) by (simp add: to_implies_not_Iff a b g)
    then show ?thesis using g v e by simp
  next
    case (Nand A B)
    then have "weight A < weight f" "weight B < weight f" by simp_all
    from IH[OF this(1) Nand(2)] obtain a where a:
      "to_implies_not A = Some a" "wf_formula a"
      "operators a \<subseteq> {''->'', ''~''}" "variables a \<subseteq> insert ''p'' (variables A)"
      "\<And>m. evaluate a m = evaluate A m"
      by blast
    from IH[OF \<open>weight B < weight f\<close> Nand(3)] obtain b where b:
      "to_implies_not B = Some b" "wf_formula b"
      "operators b \<subseteq> {''->'', ''~''}" "variables b \<subseteq> insert ''p'' (variables B)"
      "\<And>m. evaluate b m = evaluate B m"
      by blast
    let ?D = "Unary ''~'' (Binary ''&'' A B)"
    have "weight ?D < weight f" "wf_formula ?D"
      using Nand by (simp_all add: label_kinds is_binary_def)
    from IH[OF this] obtain g where g:
      "to_implies_not ?D = Some g" "wf_formula g"
      "operators g \<subseteq> {''->'', ''~''}" "variables g \<subseteq> insert ''p'' (variables ?D)"
      "\<And>m. evaluate g m = evaluate ?D m"
      by blast
    have v: "variables ?D = variables f" using Nand(1) by auto
    have e: "evaluate ?D m = evaluate f m" for m
      unfolding Nand(1) by (rule evaluate_detour)
    have "to_implies_not f = Some g" unfolding Nand(1) by (simp add: to_implies_not_Nand a b g)
    then show ?thesis using g v e by simp
  next
    case (Nor A B)
    then have "weight A < weight f" "weight B < weight f" by simp_all
    from IH[OF this(1) Nor(2)] obtain a where a:
      "to_implies_not A = Some a" "wf_formula a"
      "operators a \<subseteq> {''->'', ''~''}" "variables a \<subseteq> insert ''p'' (variables A)"
      "\<And>m. evaluate a m = evaluate A m"
      by blast
    from IH[OF \<open>weight B < weight f\<close> Nor(3)] obtain b where b:
      "to_implies_not B = Some b" "wf_formula b"
      "operators b \<subseteq> {''->'', ''~''}" "variables b \<subseteq> insert ''p'' (variables B)"
      "\<And>m. evaluate b m = evaluate B m"
      by blast
    let ?D = "Unary ''~'' (Binary ''|'' A B)"
    have "weight ?D < weight f" "wf_formula ?D"
      using Nor by (simp_all add: label_kinds is_binary_def)
    from IH[OF this] obtain g where g:
      "to_implies_not ?D = Some g" "wf_formula g"
      "operators g \<subseteq> {''->'', ''~''}" "variables g \<subseteq> insert ''p'' (variables ?D)"
      "\<And>m. evaluate g m = evaluate ?D m"
      by blast
    have v: "variables ?D = variables f" using Nor(1) by auto
    have e: "evaluate ?D m = evaluate f m" for m
      unfolding Nor(1) by (rule evaluate_detour)
    have "to_implies_not f = Some g" unfolding Nor(1) by (simp add: to_implies_not_Nor a b g)
    then show ?thesis using g v e by simp
  qed
qed

lemma to_implies_false_correct:
  "wf_formula f \<Longrightarrow>
   \<exists>g. to_implies_false f = Some g \<and> wf_formula g \<and> operators g \<subseteq> {''->'', ''F''}
     \<and> variables g \<subseteq> variables f
     \<and> (\<forall>m. evaluate g m = evaluate f m)"
proof (induction "weight f" arbitrary: f rule: less_induct)
  case less
  have IH: "\<exists>g. to_implies_false h = Some g \<and> wf_formula g \<and> operators g \<subseteq> {''->'', ''F''}
      \<and> variables g \<subseteq> variables h
      \<and> (\<forall>m. evaluate g m = evaluate h m)"
    if "weight h < weight f" "wf_formula h" for h
    using less.hyps[OF that] .
  from less.prems show ?case
  proof (cases rule: wf_formula_cases)
    case (Var r)
    then show ?thesis by (simp add: to_implies_false_unfold)
  next
    case T
    then show ?thesis
      by (simp add: to_implies_false_unfold label_kinds is_variable_p is_binary_def)
  next
    case F
    then show ?thesis
      by (simp add: to_implies_false_unfold label_kinds is_variable_p is_binary_def)
  next
    case (Not A)
    then have "weight A < weight f" by simp
    from IH[OF this Not(2)] obtain a where a:
      "to_implies_false A = Some a" "wf_formula a"
      "operators a \<subseteq> {''->'', ''F''}" "variables a \<subseteq> variables A"
      "\<And>m. evaluate a m = evaluate A m"
      by blast
    show ?thesis unfolding Not(1)
      by (rule exI[of _ "Binary ''->'' a (Leaf ''F'')"])
         (use a in \<open>auto simp: to_implies_false_Not label_kinds is_binary_def split: Option.bind_split\<close>)
  next
    case (And A B)
    then have "weight A < weight f" "weight B < weight f" by simp_all
    from IH[OF this(1) And(2)] obtain a where a:
      "to_implies_false A = Some a" "wf_formula a"
      "operators a \<subseteq> {''->'', ''F''}" "variables a \<subseteq> variables A"
      "\<And>m. evaluate a m = evaluate A m"
      by blast
    from IH[OF \<open>weight B < weight f\<close> And(3)] obtain b where b:
      "to_implies_false B = Some b" "wf_formula b"
      "operators b \<subseteq> {''->'', ''F''}" "variables b \<subseteq> variables B"
      "\<And>m. evaluate b m = evaluate B m"
      by blast
    show ?thesis unfolding And(1)
      by (rule exI[of _ "Binary ''->'' (Binary ''->'' a (Binary ''->'' b (Leaf ''F''))) (Leaf ''F'')"])
         (use a b in \<open>auto simp: to_implies_false_And label_kinds is_binary_def split: Option.bind_split\<close>)
  next
    case (Or A B)
    then have "weight A < weight f" "weight B < weight f" by simp_all
    from IH[OF this(1) Or(2)] obtain a where a:
      "to_implies_false A = Some a" "wf_formula a"
      "operators a \<subseteq> {''->'', ''F''}" "variables a \<subseteq> variables A"
      "\<And>m. evaluate a m = evaluate A m"
      by blast
    from IH[OF \<open>weight B < weight f\<close> Or(3)] obtain b where b:
      "to_implies_false B = Some b" "wf_formula b"
      "operators b \<subseteq> {''->'', ''F''}" "variables b \<subseteq> variables B"
      "\<And>m. evaluate b m = evaluate B m"
      by blast
    show ?thesis unfolding Or(1)
      by (rule exI[of _ "Binary ''->'' (Binary ''->'' a (Leaf ''F'')) b"])
         (use a b in \<open>auto simp: to_implies_false_Or label_kinds is_binary_def split: Option.bind_split\<close>)
  next
    case (Implies A B)
    then have "weight A < weight f" "weight B < weight f" by simp_all
    from IH[OF this(1) Implies(2)] obtain a where a:
      "to_implies_false A = Some a" "wf_formula a"
      "operators a \<subseteq> {''->'', ''F''}" "variables a \<subseteq> variables A"
      "\<And>m. evaluate a m = evaluate A m"
      by blast
    from IH[OF \<open>weight B < weight f\<close> Implies(3)] obtain b where b:
      "to_implies_false B = Some b" "wf_formula b"
      "operators b \<subseteq> {''->'', ''F''}" "variables b \<subseteq> variables B"
      "\<And>m. evaluate b m = evaluate B m"
      by blast
    show ?thesis unfolding Implies(1)
      by (rule exI[of _ "Binary ''->'' a b"])
         (use a b in \<open>auto simp: to_implies_false_Implies label_kinds is_binary_def split: Option.bind_split\<close>)
  next
    case (Xor A B)
    then have "weight A < weight f" "weight B < weight f" by simp_all
    from IH[OF this(1) Xor(2)] obtain a where a:
      "to_implies_false A = Some a" "wf_formula a"
      "operators a \<subseteq> {''->'', ''F''}" "variables a \<subseteq> variables A"
      "\<And>m. evaluate a m = evaluate A m"
      by blast
    from IH[OF \<open>weight B < weight f\<close> Xor(3)] obtain b where b:
      "to_implies_false B = Some b" "wf_formula b"
      "operators b \<subseteq> {''->'', ''F''}" "variables b \<subseteq> variables B"
      "\<And>m. evaluate b m = evaluate B m"
      by blast
    let ?D = "Binary ''|'' (Binary ''&'' A (Unary ''~'' B)) (Binary ''&'' (Unary ''~'' A) B)"
    have "weight ?D < weight f" "wf_formula ?D"
      using Xor by (simp_all add: label_kinds is_binary_def)
    from IH[OF this] obtain g where g:
      "to_implies_false ?D = Some g" "wf_formula g"
      "operators g \<subseteq> {''->'', ''F''}" "variables g \<subseteq> variables ?D"
      "\<And>m. evaluate g m = evaluate ?D m"
      by blast
    have v: "variables ?D = variables f" using Xor(1) by auto
    have e: "evaluate ?D m = evaluate f m" for m
      unfolding Xor(1) by (rule evaluate_detour)
    have "to_implies_false f = Some g" unfolding Xor(1) by (simp add: to_implies_false_Xor a b g)
    then show ?thesis using g v e by simp
  next
    case (Iff A B)
    then have "weight A < weight f" "weight B < weight f" by simp_all
    from IH[OF this(1) Iff(2)] obtain a where a:
      "to_implies_false A = Some a" "wf_formula a"
      "operators a \<subseteq> {''->'', ''F''}" "variables a \<subseteq> variables A"
      "\<And>m. evaluate a m = evaluate A m"
      by blast
    from IH[OF \<open>weight B < weight f\<close> Iff(3)] obtain b where b:
      "to_implies_false B = Some b" "wf_formula b"
      "operators b \<subseteq> {''->'', ''F''}" "variables b \<subseteq> variables B"
      "\<And>m. evaluate b m = evaluate B m"
      by blast
    let ?D = "Binary ''|'' (Binary ''&'' A B) (Binary ''&'' (Unary ''~'' A) (Unary ''~'' B))"
    have "weight ?D < weight f" "wf_formula ?D"
      using Iff by (simp_all add: label_kinds is_binary_def)
    from IH[OF this] obtain g where g:
      "to_implies_false ?D = Some g" "wf_formula g"
      "operators g \<subseteq> {''->'', ''F''}" "variables g \<subseteq> variables ?D"
      "\<And>m. evaluate g m = evaluate ?D m"
      by blast
    have v: "variables ?D = variables f" using Iff(1) by auto
    have e: "evaluate ?D m = evaluate f m" for m
      unfolding Iff(1) by (rule evaluate_detour)
    have "to_implies_false f = Some g" unfolding Iff(1) by (simp add: to_implies_false_Iff a b g)
    then show ?thesis using g v e by simp
  next
    case (Nand A B)
    then have "weight A < weight f" "weight B < weight f" by simp_all
    from IH[OF this(1) Nand(2)] obtain a where a:
      "to_implies_false A = Some a" "wf_formula a"
      "operators a \<subseteq> {''->'', ''F''}" "variables a \<subseteq> variables A"
      "\<And>m. evaluate a m = evaluate A m"
      by blast
    from IH[OF \<open>weight B < weight f\<close> Nand(3)] obtain b where b:
      "to_implies_false B = Some b" "wf_formula b"
      "operators b \<subseteq> {''->'', ''F''}" "variables b \<subseteq> variables B"
      "\<And>m. evaluate b m = evaluate B m"
      by blast
    let ?D = "Unary ''~'' (Binary ''&'' A B)"
    have "weight ?D < weight f" "wf_formula ?D"
      using Nand by (simp_all add: label_kinds is_binary_def)
    from IH[OF this] obtain g where g:
      "to_implies_false ?D = Some g" "wf_formula g"
      "operators g \<subseteq> {''->'', ''F''}" "variables g \<subseteq> variables ?D"
      "\<And>m. evaluate g m = evaluate ?D m"
      by blast
    have v: "variables ?D = variables f" using Nand(1) by auto
    have e: "evaluate ?D m = evaluate f m" for m
      unfolding Nand(1) by (rule evaluate_detour)
    have "to_implies_false f = Some g" unfolding Nand(1) by (simp add: to_implies_false_Nand a b g)
    then show ?thesis using g v e by simp
  next
    case (Nor A B)
    then have "weight A < weight f" "weight B < weight f" by simp_all
    from IH[OF this(1) Nor(2)] obtain a where a:
      "to_implies_false A = Some a" "wf_formula a"
      "operators a \<subseteq> {''->'', ''F''}" "variables a \<subseteq> variables A"
      "\<And>m. evaluate a m = evaluate A m"
      by blast
    from IH[OF \<open>weight B < weight f\<close> Nor(3)] obtain b where b:
      "to_implies_false B = Some b" "wf_formula b"
      "operators b \<subseteq> {''->'', ''F''}" "variables b \<subseteq> variables B"
      "\<And>m. evaluate b m = evaluate B m"
      by blast
    let ?D = "Unary ''~'' (Binary ''|'' A B)"
    have "weight ?D < weight f" "wf_formula ?D"
      using Nor by (simp_all add: label_kinds is_binary_def)
    from IH[OF this] obtain g where g:
      "to_implies_false ?D = Some g" "wf_formula g"
      "operators g \<subseteq> {''->'', ''F''}" "variables g \<subseteq> variables ?D"
      "\<And>m. evaluate g m = evaluate ?D m"
      by blast
    have v: "variables ?D = variables f" using Nor(1) by auto
    have e: "evaluate ?D m = evaluate f m" for m
      unfolding Nor(1) by (rule evaluate_detour)
    have "to_implies_false f = Some g" unfolding Nor(1) by (simp add: to_implies_false_Nor a b g)
    then show ?thesis using g v e by simp
  qed
qed

lemma to_nand_correct:
  "wf_formula f \<Longrightarrow>
   \<exists>g. to_nand f = Some g \<and> wf_formula g \<and> operators g \<subseteq> {''-&''}
     \<and> variables g \<subseteq> insert ''p'' (variables f)
     \<and> nand_weight g \<le> nand_weight f
     \<and> (''T'' \<notin> operators f \<and> ''F'' \<notin> operators f \<and> ''->'' \<notin> operators f
          \<longrightarrow> (\<forall>m. evaluate g m = evaluate f m))"
proof (induction "nand_weight f" arbitrary: f rule: less_induct)
  case less
  have IH: "\<exists>g. to_nand h = Some g \<and> wf_formula g \<and> operators g \<subseteq> {''-&''}
      \<and> variables g \<subseteq> insert ''p'' (variables h)
      \<and> nand_weight g \<le> nand_weight h
      \<and> (''T'' \<notin> operators h \<and> ''F'' \<notin> operators h \<and> ''->'' \<notin> operators h
           \<longrightarrow> (\<forall>m. evaluate g m = evaluate h m))"
    if "nand_weight h < nand_weight f" "wf_formula h" for h
    using less.hyps[OF that] .
  from less.prems show ?case
  proof (cases rule: wf_formula_cases)
    case (Var r)
    then show ?thesis by (simp add: to_nand_unfold)
  next
    case T
    then show ?thesis
      by (simp add: to_nand_unfold label_kinds is_variable_p is_binary_def not_constant_p)
  next
    case F
    then show ?thesis
      by (simp add: to_nand_unfold label_kinds is_variable_p is_binary_def not_constant_p)
  next
    case (Not A)
    then have "nand_weight A < nand_weight f" by simp
    from IH[OF this Not(2)] obtain a where a:
      "to_nand A = Some a" "wf_formula a"
      "operators a \<subseteq> {''-&''}" "variables a \<subseteq> insert ''p'' (variables A)"
      "nand_weight a \<le> nand_weight A"
      "\<And>m. ''T'' \<notin> operators A \<Longrightarrow> ''F'' \<notin> operators A
         \<Longrightarrow> ''->'' \<notin> operators A
         \<Longrightarrow> evaluate a m = evaluate A m"
      by blast
    show ?thesis unfolding Not(1)
      by (rule exI[of _ "Binary ''-&'' a a"])
         (use a in \<open>auto simp: to_nand_Not label_kinds is_binary_def not_constant_p split: Option.bind_split\<close>)
  next
    case (And A B)
    then have "nand_weight A < nand_weight f" "nand_weight B < nand_weight f" by simp_all
    from IH[OF this(1) And(2)] obtain a where a:
      "to_nand A = Some a" "wf_formula a"
      "operators a \<subseteq> {''-&''}" "variables a \<subseteq> insert ''p'' (variables A)"
      "nand_weight a \<le> nand_weight A"
      "\<And>m. ''T'' \<notin> operators A \<Longrightarrow> ''F'' \<notin> operators A
         \<Longrightarrow> ''->'' \<notin> operators A
         \<Longrightarrow> evaluate a m = evaluate A m"
      by blast
    from IH[OF \<open>nand_weight B < nand_weight f\<close> And(3)] obtain b where b:
      "to_nand B = Some b" "wf_formula b"
      "operators b \<subseteq> {''-&''}" "variables b \<subseteq> insert ''p'' (variables B)"
      "nand_weight b \<le> nand_weight B"
      "\<And>m. ''T'' \<notin> operators B \<Longrightarrow> ''F'' \<notin> operators B
         \<Longrightarrow> ''->'' \<notin> operators B
         \<Longrightarrow> evaluate b m = evaluate B m"
      by blast
    show ?thesis unfolding And(1)
      by (rule exI[of _ "Binary ''-&'' (Binary ''-&'' a b) (Binary ''-&'' a b)"])
         (use a b in \<open>auto simp: to_nand_And label_kinds is_binary_def not_constant_p split: Option.bind_split\<close>)
  next
    case (Or A B)
    then have "nand_weight A < nand_weight f" "nand_weight B < nand_weight f" by simp_all
    from IH[OF this(1) Or(2)] obtain a where a:
      "to_nand A = Some a" "wf_formula a"
      "operators a \<subseteq> {''-&''}" "variables a \<subseteq> insert ''p'' (variables A)"
      "nand_weight a \<le> nand_weight A"
      "\<And>m. ''T'' \<notin> operators A \<Longrightarrow> ''F'' \<notin> operators A
         \<Longrightarrow> ''->'' \<notin> operators A
         \<Longrightarrow> evaluate a m = evaluate A m"
      by blast
    from IH[OF \<open>nand_weight B < nand_weight f\<close> Or(3)] obtain b where b:
      "to_nand B = Some b" "wf_formula b"
      "operators b \<subseteq> {''-&''}" "variables b \<subseteq> insert ''p'' (variables B)"
      "nand_weight b \<le> nand_weight B"
      "\<And>m. ''T'' \<notin> operators B \<Longrightarrow> ''F'' \<notin> operators B
         \<Longrightarrow> ''->'' \<notin> operators B
         \<Longrightarrow> evaluate b m = evaluate B m"
      by blast
    show ?thesis unfolding Or(1)
      by (rule exI[of _ "Binary ''-&'' (Binary ''-&'' a a) (Binary ''-&'' b b)"])
         (use a b in \<open>auto simp: to_nand_Or label_kinds is_binary_def not_constant_p split: Option.bind_split\<close>)
  next
    case (Implies A B)
    then have "nand_weight A < nand_weight f" "nand_weight B < nand_weight f" by simp_all
    from IH[OF this(1) Implies(2)] obtain a where a:
      "to_nand A = Some a" "wf_formula a"
      "operators a \<subseteq> {''-&''}" "variables a \<subseteq> insert ''p'' (variables A)"
      "nand_weight a \<le> nand_weight A"
      "\<And>m. ''T'' \<notin> operators A \<Longrightarrow> ''F'' \<notin> operators A
         \<Longrightarrow> ''->'' \<notin> operators A
         \<Longrightarrow> evaluate a m = evaluate A m"
      by blast
    from IH[OF \<open>nand_weight B < nand_weight f\<close> Implies(3)] obtain b where b:
      "to_nand B = Some b" "wf_formula b"
      "operators b \<subseteq> {''-&''}" "variables b \<subseteq> insert ''p'' (variables B)"
      "nand_weight b \<le> nand_weight B"
      "\<And>m. ''T'' \<notin> operators B \<Longrightarrow> ''F'' \<notin> operators B
         \<Longrightarrow> ''->'' \<notin> operators B
         \<Longrightarrow> evaluate b m = evaluate B m"
      by blast
    show ?thesis unfolding Implies(1)
      by (rule exI[of _ "Binary ''-&'' (Binary ''-&'' a a) b"])
         (use a b in \<open>auto simp: to_nand_Implies label_kinds is_binary_def not_constant_p split: Option.bind_split\<close>)
  next
    case (Xor A B)
    then have "nand_weight A < nand_weight f" "nand_weight B < nand_weight f" by simp_all
    from IH[OF this(1) Xor(2)] obtain a where a:
      "to_nand A = Some a" "wf_formula a"
      "operators a \<subseteq> {''-&''}" "variables a \<subseteq> insert ''p'' (variables A)"
      "nand_weight a \<le> nand_weight A"
      "\<And>m. ''T'' \<notin> operators A \<Longrightarrow> ''F'' \<notin> operators A
         \<Longrightarrow> ''->'' \<notin> operators A
         \<Longrightarrow> evaluate a m = evaluate A m"
      by blast
    from IH[OF \<open>nand_weight B < nand_weight f\<close> Xor(3)] obtain b where b:
      "to_nand B = Some b" "wf_formula b"
      "operators b \<subseteq> {''-&''}" "variables b \<subseteq> insert ''p'' (variables B)"
      "nand_weight b \<le> nand_weight B"
      "\<And>m. ''T'' \<notin> operators B \<Longrightarrow> ''F'' \<notin> operators B
         \<Longrightarrow> ''->'' \<notin> operators B
         \<Longrightarrow> evaluate b m = evaluate B m"
      by blast
    let ?O = "Binary ''|'' A B" and ?N = "Binary ''&'' A B"
    have "nand_weight ?O < nand_weight f" "wf_formula ?O"
      using Xor by (simp_all add: is_binary_def)
    from IH[OF this] obtain ob where ob:
      "to_nand ?O = Some ob" "wf_formula ob"
      "operators ob \<subseteq> {''-&''}" "variables ob \<subseteq> insert ''p'' (variables ?O)"
      "nand_weight ob \<le> nand_weight ?O"
      "\<And>m. ''T'' \<notin> operators ?O \<Longrightarrow> ''F'' \<notin> operators ?O
         \<Longrightarrow> ''->'' \<notin> operators ?O
         \<Longrightarrow> evaluate ob m = evaluate ?O m"
      by blast
    have "nand_weight ?N < nand_weight f" "wf_formula ?N"
      using Xor by (simp_all add: is_binary_def)
    from IH[OF this] obtain ab where ab:
      "to_nand ?N = Some ab" "wf_formula ab"
      "operators ab \<subseteq> {''-&''}" "variables ab \<subseteq> insert ''p'' (variables ?N)"
      "nand_weight ab \<le> nand_weight ?N"
      "\<And>m. ''T'' \<notin> operators ?N \<Longrightarrow> ''F'' \<notin> operators ?N
         \<Longrightarrow> ''->'' \<notin> operators ?N
         \<Longrightarrow> evaluate ab m = evaluate ?N m"
      by blast
    let ?D = "Binary ''&'' ob (Binary ''-&'' ab ab)"
    have "nand_weight ?D < nand_weight f" "wf_formula ?D"
      using Xor(1) ob(2,5) ab(2,5) by (simp_all add: is_binary_def)
    from IH[OF this] obtain g where g:
      "to_nand ?D = Some g" "wf_formula g"
      "operators g \<subseteq> {''-&''}" "variables g \<subseteq> insert ''p'' (variables ?D)"
      "nand_weight g \<le> nand_weight ?D"
      "\<And>m. ''T'' \<notin> operators ?D \<Longrightarrow> ''F'' \<notin> operators ?D
         \<Longrightarrow> ''->'' \<notin> operators ?D
         \<Longrightarrow> evaluate g m = evaluate ?D m"
      by blast
    have eq: "to_nand f = Some g" unfolding Xor(1) by (simp add: to_nand_Xor a b ob ab g)
    have v: "variables g \<subseteq> insert ''p'' (variables f)"
      using g(4) ob(4) ab(4) Xor(1) by auto
    have w: "nand_weight g \<le> nand_weight f"
      using g(5) \<open>nand_weight ?D < nand_weight f\<close> by simp
    have e: "evaluate g m = evaluate f m"
      if cf: "''T'' \<notin> operators f" "''F'' \<notin> operators f"
        "''->'' \<notin> operators f" for m
    proof -
      have "''T'' \<notin> operators ?D" "''F'' \<notin> operators ?D" "''->'' \<notin> operators ?D"
        using ob(3) ab(3) by auto
      then have "evaluate g m = evaluate ?D m" by (rule g(6))
      moreover have "evaluate ob m = evaluate ?O m" "evaluate ab m = evaluate ?N m"
        using cf Xor(1) ob(6) ab(6) by simp_all
      ultimately show ?thesis unfolding Xor(1)
        by (cases "evaluate A m"; cases "evaluate B m") auto
    qed
    show ?thesis using eq g(2,3) v w e by blast
  next
    case (Iff A B)
    then have "nand_weight A < nand_weight f" "nand_weight B < nand_weight f" by simp_all
    from IH[OF this(1) Iff(2)] obtain a where a:
      "to_nand A = Some a" "wf_formula a"
      "operators a \<subseteq> {''-&''}" "variables a \<subseteq> insert ''p'' (variables A)"
      "nand_weight a \<le> nand_weight A"
      "\<And>m. ''T'' \<notin> operators A \<Longrightarrow> ''F'' \<notin> operators A
         \<Longrightarrow> ''->'' \<notin> operators A
         \<Longrightarrow> evaluate a m = evaluate A m"
      by blast
    from IH[OF \<open>nand_weight B < nand_weight f\<close> Iff(3)] obtain b where b:
      "to_nand B = Some b" "wf_formula b"
      "operators b \<subseteq> {''-&''}" "variables b \<subseteq> insert ''p'' (variables B)"
      "nand_weight b \<le> nand_weight B"
      "\<And>m. ''T'' \<notin> operators B \<Longrightarrow> ''F'' \<notin> operators B
         \<Longrightarrow> ''->'' \<notin> operators B
         \<Longrightarrow> evaluate b m = evaluate B m"
      by blast
    let ?X = "Binary ''+'' A B"
    have "nand_weight ?X < nand_weight f" "wf_formula ?X"
      using Iff by (simp_all add: is_binary_def)
    from IH[OF this] obtain x where x:
      "to_nand ?X = Some x" "wf_formula x"
      "operators x \<subseteq> {''-&''}" "variables x \<subseteq> insert ''p'' (variables ?X)"
      "nand_weight x \<le> nand_weight ?X"
      "\<And>m. ''T'' \<notin> operators ?X \<Longrightarrow> ''F'' \<notin> operators ?X
         \<Longrightarrow> ''->'' \<notin> operators ?X
         \<Longrightarrow> evaluate x m = evaluate ?X m"
      by blast
    have e: "evaluate (Binary ''-&'' x x) m = evaluate f m"
      if cf: "''T'' \<notin> operators f" "''F'' \<notin> operators f"
        "''->'' \<notin> operators f" for m
    proof -
      have "evaluate x m = evaluate ?X m" using cf Iff(1) x(6) by simp
      then show ?thesis unfolding Iff(1)
        by (cases "evaluate A m"; cases "evaluate B m") auto
    qed
    have "to_nand f = Some (Binary ''-&'' x x)"
      unfolding Iff(1) by (simp add: to_nand_Iff a b x)
    moreover have "wf_formula (Binary ''-&'' x x)" "operators (Binary ''-&'' x x) \<subseteq> {''-&''}"
      using x(2,3) by (simp_all add: is_binary_def)
    moreover have "variables (Binary ''-&'' x x) \<subseteq> insert ''p'' (variables f)"
      using x(4) Iff(1) by simp
    moreover have "nand_weight (Binary ''-&'' x x) \<le> nand_weight f"
      using x(5) Iff(1) by simp
    ultimately show ?thesis using e by blast
  next
    case (Nand A B)
    then have "nand_weight A < nand_weight f" "nand_weight B < nand_weight f" by simp_all
    from IH[OF this(1) Nand(2)] obtain a where a:
      "to_nand A = Some a" "wf_formula a"
      "operators a \<subseteq> {''-&''}" "variables a \<subseteq> insert ''p'' (variables A)"
      "nand_weight a \<le> nand_weight A"
      "\<And>m. ''T'' \<notin> operators A \<Longrightarrow> ''F'' \<notin> operators A
         \<Longrightarrow> ''->'' \<notin> operators A
         \<Longrightarrow> evaluate a m = evaluate A m"
      by blast
    from IH[OF \<open>nand_weight B < nand_weight f\<close> Nand(3)] obtain b where b:
      "to_nand B = Some b" "wf_formula b"
      "operators b \<subseteq> {''-&''}" "variables b \<subseteq> insert ''p'' (variables B)"
      "nand_weight b \<le> nand_weight B"
      "\<And>m. ''T'' \<notin> operators B \<Longrightarrow> ''F'' \<notin> operators B
         \<Longrightarrow> ''->'' \<notin> operators B
         \<Longrightarrow> evaluate b m = evaluate B m"
      by blast
    show ?thesis unfolding Nand(1)
      by (rule exI[of _ "Binary ''-&'' a b"])
         (use a b in \<open>auto simp: to_nand_Nand label_kinds is_binary_def not_constant_p split: Option.bind_split\<close>)
  next
    case (Nor A B)
    then have "nand_weight A < nand_weight f" "nand_weight B < nand_weight f" by simp_all
    from IH[OF this(1) Nor(2)] obtain a where a:
      "to_nand A = Some a" "wf_formula a"
      "operators a \<subseteq> {''-&''}" "variables a \<subseteq> insert ''p'' (variables A)"
      "nand_weight a \<le> nand_weight A"
      "\<And>m. ''T'' \<notin> operators A \<Longrightarrow> ''F'' \<notin> operators A
         \<Longrightarrow> ''->'' \<notin> operators A
         \<Longrightarrow> evaluate a m = evaluate A m"
      by blast
    from IH[OF \<open>nand_weight B < nand_weight f\<close> Nor(3)] obtain b where b:
      "to_nand B = Some b" "wf_formula b"
      "operators b \<subseteq> {''-&''}" "variables b \<subseteq> insert ''p'' (variables B)"
      "nand_weight b \<le> nand_weight B"
      "\<And>m. ''T'' \<notin> operators B \<Longrightarrow> ''F'' \<notin> operators B
         \<Longrightarrow> ''->'' \<notin> operators B
         \<Longrightarrow> evaluate b m = evaluate B m"
      by blast
    let ?X = "Binary ''|'' A B"
    have "nand_weight ?X < nand_weight f" "wf_formula ?X"
      using Nor by (simp_all add: is_binary_def)
    from IH[OF this] obtain x where x:
      "to_nand ?X = Some x" "wf_formula x"
      "operators x \<subseteq> {''-&''}" "variables x \<subseteq> insert ''p'' (variables ?X)"
      "nand_weight x \<le> nand_weight ?X"
      "\<And>m. ''T'' \<notin> operators ?X \<Longrightarrow> ''F'' \<notin> operators ?X
         \<Longrightarrow> ''->'' \<notin> operators ?X
         \<Longrightarrow> evaluate x m = evaluate ?X m"
      by blast
    have e: "evaluate (Binary ''-&'' x x) m = evaluate f m"
      if cf: "''T'' \<notin> operators f" "''F'' \<notin> operators f"
        "''->'' \<notin> operators f" for m
    proof -
      have "evaluate x m = evaluate ?X m" using cf Nor(1) x(6) by simp
      then show ?thesis unfolding Nor(1)
        by (cases "evaluate A m"; cases "evaluate B m") auto
    qed
    have "to_nand f = Some (Binary ''-&'' x x)"
      unfolding Nor(1) by (simp add: to_nand_Nor a b x)
    moreover have "wf_formula (Binary ''-&'' x x)" "operators (Binary ''-&'' x x) \<subseteq> {''-&''}"
      using x(2,3) by (simp_all add: is_binary_def)
    moreover have "variables (Binary ''-&'' x x) \<subseteq> insert ''p'' (variables f)"
      using x(4) Nor(1) by simp
    moreover have "nand_weight (Binary ''-&'' x x) \<le> nand_weight f"
      using x(5) Nor(1) by simp
    ultimately show ?thesis using e by blast
  qed
qed

section \<open>Formulas already in the target basis\<close>

lemma to_not_and_or_fixed:
  "wf_formula g \<Longrightarrow> operators g \<subseteq> {''~'', ''&'', ''|''} \<Longrightarrow> to_not_and_or g = Some g"
proof (induction g)
  case (Leaf r)
  from Leaf.prems show ?case
    by (cases rule: wf_formula_cases) (auto simp: to_not_and_or_unfold label_kinds)
next
  case (Unary r A)
  from Unary.prems show ?case
    by (cases rule: wf_formula_cases) (use Unary.IH in \<open>auto simp: to_not_and_or_unfold\<close>)
next
  case (Binary r A B)
  from Binary.prems show ?case
    by (cases rule: wf_formula_cases) (use Binary.IH in \<open>auto simp: to_not_and_or_unfold\<close>)
qed

lemma to_not_and_fixed:
  "wf_formula g \<Longrightarrow> operators g \<subseteq> {''~'', ''&''} \<Longrightarrow> to_not_and g = Some g"
proof (induction g)
  case (Leaf r)
  from Leaf.prems show ?case
    by (cases rule: wf_formula_cases) (auto simp: to_not_and_unfold label_kinds)
next
  case (Unary r A)
  from Unary.prems show ?case
    by (cases rule: wf_formula_cases) (use Unary.IH in \<open>auto simp: to_not_and_unfold\<close>)
next
  case (Binary r A B)
  from Binary.prems show ?case
    by (cases rule: wf_formula_cases) (use Binary.IH in \<open>auto simp: to_not_and_unfold\<close>)
qed

lemma to_nand_fixed:
  "wf_formula g \<Longrightarrow> operators g \<subseteq> {''-&''} \<Longrightarrow> to_nand g = Some g"
proof (induction g)
  case (Leaf r)
  from Leaf.prems show ?case
    by (cases rule: wf_formula_cases) (auto simp: to_nand_unfold label_kinds)
next
  case (Unary r A)
  from Unary.prems show ?case
    by (cases rule: wf_formula_cases) (use Unary.IH in \<open>auto simp: to_nand_unfold\<close>)
next
  case (Binary r A B)
  from Binary.prems show ?case
    by (cases rule: wf_formula_cases) (use Binary.IH in \<open>auto simp: to_nand_unfold\<close>)
qed

lemma to_implies_not_fixed:
  "wf_formula g \<Longrightarrow> operators g \<subseteq> {''->'', ''~''} \<Longrightarrow> to_implies_not g = Some g"
proof (induction g)
  case (Leaf r)
  from Leaf.prems show ?case
    by (cases rule: wf_formula_cases) (auto simp: to_implies_not_unfold label_kinds)
next
  case (Unary r A)
  from Unary.prems show ?case
    by (cases rule: wf_formula_cases) (use Unary.IH in \<open>auto simp: to_implies_not_unfold\<close>)
next
  case (Binary r A B)
  from Binary.prems show ?case
    by (cases rule: wf_formula_cases) (use Binary.IH in \<open>auto simp: to_implies_not_unfold\<close>)
qed

lemma to_implies_false_fixed:
  "wf_formula g \<Longrightarrow> operators g \<subseteq> {''->'', ''F''} \<Longrightarrow> to_implies_false g = Some g"
proof (induction g)
  case (Leaf r)
  from Leaf.prems show ?case
    by (cases rule: wf_formula_cases) (auto simp: to_implies_false_unfold label_kinds)
next
  case (Unary r A)
  from Unary.prems show ?case
    by (cases rule: wf_formula_cases) (use Unary.IH in \<open>auto simp: to_implies_false_unfold\<close>)
next
  case (Binary r A B)
  from Binary.prems show ?case
    by (cases rule: wf_formula_cases) (use Binary.IH in \<open>auto simp: to_implies_false_unfold\<close>)
qed

lemma evaluate_defined: "wf_formula f \<Longrightarrow> \<exists>b. evaluate f m = Some b"
proof (induction f)
  case (Leaf r)
  then show ?case by (auto simp: is_constant_def)
next
  case (Unary r A)
  then show ?case by auto
next
  case (Binary r A B)
  then show ?case by (auto simp: is_binary_def)
qed

section \<open>The claims\<close>

text \<open>
  C1 (fails on the code): \<open>to_nand\<close> does not preserve the truth table. On the constant
  \<open>F\<close> the result is \<open>p -& (p -& p)\<close>, which is true under every assignment; on the
  constant \<open>T\<close> the result is \<open>(p -& p) -& (p -& p)\<close>, which has the value of \<open>p\<close>;
  on \<open>p -> q\<close> the result is \<open>(p -& p) -& q\<close>, which is true where \<open>p\<close> is true and
  \<open>q\<close> is false.
\<close>

theorem to_nand_not_equivalent:
  "to_nand (Leaf ''F'') = Some (Binary ''-&'' (Leaf ''p'') (Binary ''-&'' (Leaf ''p'') (Leaf ''p'')))
   \<and> evaluate (Leaf ''F'') model = Some False
   \<and> evaluate (Binary ''-&'' (Leaf ''p'') (Binary ''-&'' (Leaf ''p'') (Leaf ''p''))) model
       = Some True
   \<and> to_nand (Leaf ''T'') = Some (Binary ''-&'' (Binary ''-&'' (Leaf ''p'') (Leaf ''p''))
                                              (Binary ''-&'' (Leaf ''p'') (Leaf ''p'')))
   \<and> evaluate (Leaf ''T'') model = Some True
   \<and> evaluate (Binary ''-&'' (Binary ''-&'' (Leaf ''p'') (Leaf ''p''))
                             (Binary ''-&'' (Leaf ''p'') (Leaf ''p''))) model
       = Some (model ''p'')
   \<and> to_nand (Binary ''->'' (Leaf ''p'') (Leaf ''q''))
       = Some (Binary ''-&'' (Binary ''-&'' (Leaf ''p'') (Leaf ''p'')) (Leaf ''q''))
   \<and> evaluate (Binary ''->'' (Leaf ''p'') (Leaf ''q'')) (\<lambda>v. v = ''p'') = Some False
   \<and> evaluate (Binary ''-&'' (Binary ''-&'' (Leaf ''p'') (Leaf ''p'')) (Leaf ''q''))
         (\<lambda>v. v = ''p'') = Some True"
  by (simp add: to_nand_unfold label_kinds is_constant_def)

text \<open>
  C2: on a well-formed formula, each of \<open>to_not_and_or\<close>, \<open>to_not_and\<close>,
  \<open>to_implies_not\<close> and \<open>to_implies_false\<close> returns a formula that has, under every
  variable assignment, the truth value of its input.
\<close>

theorem converters_preserve_evaluate:
  assumes "wf_formula f"
  shows "(\<exists>g b. to_not_and_or f = Some g \<and> evaluate f model = Some b \<and> evaluate g model = Some b)
       \<and> (\<exists>g b. to_not_and f = Some g \<and> evaluate f model = Some b \<and> evaluate g model = Some b)
       \<and> (\<exists>g b. to_implies_not f = Some g \<and> evaluate f model = Some b
                 \<and> evaluate g model = Some b)
       \<and> (\<exists>g b. to_implies_false f = Some g \<and> evaluate f model = Some b
                 \<and> evaluate g model = Some b)"
proof -
  from evaluate_defined[OF assms] obtain b where b: "evaluate f model = Some b" by blast
  from to_not_and_or_correct[OF assms] obtain g1 where
    "to_not_and_or f = Some g1" "evaluate g1 model = evaluate f model" by blast
  moreover from to_not_and_correct[OF assms] obtain g2 where
    "to_not_and f = Some g2" "evaluate g2 model = evaluate f model" by blast
  moreover from to_implies_not_correct[OF assms] obtain g3 where
    "to_implies_not f = Some g3" "evaluate g3 model = evaluate f model" by blast
  moreover from to_implies_false_correct[OF assms] obtain g4 where
    "to_implies_false f = Some g4" "evaluate g4 model = evaluate f model" by blast
  ultimately show ?thesis using b by simp
qed

theorem converters_preserve_evaluate_witness:
  "wf_formula (Binary ''+'' (Leaf ''p'') (Unary ''~'' (Leaf ''q'')))
   \<and> ((\<exists>g b. to_not_and_or (Binary ''+'' (Leaf ''p'') (Unary ''~'' (Leaf ''q''))) = Some g
          \<and> evaluate (Binary ''+'' (Leaf ''p'') (Unary ''~'' (Leaf ''q''))) (\<lambda>v. v = ''p'') = Some b
          \<and> evaluate g (\<lambda>v. v = ''p'') = Some b)
       \<and> (\<exists>g b. to_not_and (Binary ''+'' (Leaf ''p'') (Unary ''~'' (Leaf ''q''))) = Some g
          \<and> evaluate (Binary ''+'' (Leaf ''p'') (Unary ''~'' (Leaf ''q''))) (\<lambda>v. v = ''p'') = Some b
          \<and> evaluate g (\<lambda>v. v = ''p'') = Some b)
       \<and> (\<exists>g b. to_implies_not (Binary ''+'' (Leaf ''p'') (Unary ''~'' (Leaf ''q''))) = Some g
          \<and> evaluate (Binary ''+'' (Leaf ''p'') (Unary ''~'' (Leaf ''q''))) (\<lambda>v. v = ''p'') = Some b
          \<and> evaluate g (\<lambda>v. v = ''p'') = Some b)
       \<and> (\<exists>g b. to_implies_false (Binary ''+'' (Leaf ''p'') (Unary ''~'' (Leaf ''q''))) = Some g
          \<and> evaluate (Binary ''+'' (Leaf ''p'') (Unary ''~'' (Leaf ''q''))) (\<lambda>v. v = ''p'') = Some b
          \<and> evaluate g (\<lambda>v. v = ''p'') = Some b))"
proof -
  have h: "wf_formula (Binary ''+'' (Leaf ''p'') (Unary ''~'' (Leaf ''q'')))"
    by (simp add: is_binary_def is_unary_def)
  from h converters_preserve_evaluate[OF h] show ?thesis by (rule conjI)
qed

text \<open>
  C3: on a well-formed formula (whatever operators and constants it contains), the
  operator and constant labels of the result of each converter lie in the converter's
  basis: every label of the result that is not the label of a variable leaf is an
  operator or constant of the basis. In particular the result of \<open>to_implies_false\<close>
  does not contain the constant \<open>T\<close>.
\<close>

theorem converters_basis_closure:
  assumes "wf_formula f"
  shows "(\<exists>g. to_not_and_or f = Some g \<and> operators g \<subseteq> {''~'', ''&'', ''|''})
       \<and> (\<exists>g. to_not_and f = Some g \<and> operators g \<subseteq> {''~'', ''&''})
       \<and> (\<exists>g. to_nand f = Some g \<and> operators g \<subseteq> {''-&''})
       \<and> (\<exists>g. to_implies_not f = Some g \<and> operators g \<subseteq> {''->'', ''~''})
       \<and> (\<exists>g. to_implies_false f = Some g \<and> operators g \<subseteq> {''->'', ''F''}
             \<and> ''T'' \<notin> operators g)"
proof -
  from to_not_and_or_correct[OF assms] obtain g1 where
    "to_not_and_or f = Some g1" "operators g1 \<subseteq> {''~'', ''&'', ''|''}" by blast
  moreover from to_not_and_correct[OF assms] obtain g2 where
    "to_not_and f = Some g2" "operators g2 \<subseteq> {''~'', ''&''}" by blast
  moreover from to_nand_correct[OF assms] obtain g3 where
    "to_nand f = Some g3" "operators g3 \<subseteq> {''-&''}" by blast
  moreover from to_implies_not_correct[OF assms] obtain g4 where
    "to_implies_not f = Some g4" "operators g4 \<subseteq> {''->'', ''~''}" by blast
  moreover from to_implies_false_correct[OF assms] obtain g5 where
    "to_implies_false f = Some g5" "operators g5 \<subseteq> {''->'', ''F''}" by blast
  moreover from this(2) have "''T'' \<notin> operators g5" by auto
  ultimately show ?thesis by simp
qed

theorem converters_basis_closure_witness:
  "wf_formula (Binary ''-|'' (Binary ''+'' (Leaf ''x'') (Leaf ''T'')) (Binary ''-&'' (Leaf ''F'') (Leaf ''y1'')))
   \<and> ((\<exists>g. to_not_and_or 
            (Binary ''-|'' (Binary ''+'' (Leaf ''x'') (Leaf ''T'')) (Binary ''-&'' (Leaf ''F'') (Leaf ''y1''))) = Some g \<and> operators g \<subseteq> {''~'', ''&'', ''|''})
       \<and> (\<exists>g. to_not_and 
            (Binary ''-|'' (Binary ''+'' (Leaf ''x'') (Leaf ''T'')) (Binary ''-&'' (Leaf ''F'') (Leaf ''y1''))) = Some g \<and> operators g \<subseteq> {''~'', ''&''})
       \<and> (\<exists>g. to_nand 
            (Binary ''-|'' (Binary ''+'' (Leaf ''x'') (Leaf ''T'')) (Binary ''-&'' (Leaf ''F'') (Leaf ''y1''))) = Some g \<and> operators g \<subseteq> {''-&''})
       \<and> (\<exists>g. to_implies_not 
            (Binary ''-|'' (Binary ''+'' (Leaf ''x'') (Leaf ''T'')) (Binary ''-&'' (Leaf ''F'') (Leaf ''y1''))) = Some g \<and> operators g \<subseteq> {''->'', ''~''})
       \<and> (\<exists>g. to_implies_false 
            (Binary ''-|'' (Binary ''+'' (Leaf ''x'') (Leaf ''T'')) (Binary ''-&'' (Leaf ''F'') (Leaf ''y1''))) = Some g \<and> operators g \<subseteq> {''->'', ''F''}
             \<and> ''T'' \<notin> operators g))"
proof -
  have h: "wf_formula (Binary ''-|'' (Binary ''+'' (Leaf ''x'') (Leaf ''T'')) (Binary ''-&'' (Leaf ''F'') (Leaf ''y1'')))"
    by (simp add: is_binary_def is_constant_def is_digit_def)
  from h converters_basis_closure[OF h] show ?thesis by (rule conjI)
qed

text \<open>
  C4: \<open>to_nand\<close> maps the constant \<open>T\<close> to exactly
  \<open>(p -& p) -& (p -& p)\<close> and the constant \<open>F\<close> to exactly \<open>p -& (p -& p)\<close>,
  where \<open>p\<close> is the variable named \<open>p\<close>.
\<close>

theorem to_nand_constants:
  "to_nand (Leaf ''T'') = Some (Binary ''-&'' (Binary ''-&'' (Leaf ''p'') (Leaf ''p''))
                                           (Binary ''-&'' (Leaf ''p'') (Leaf ''p'')))
   \<and> to_nand (Leaf ''F'') = Some (Binary ''-&'' (Leaf ''p'') (Binary ''-&'' (Leaf ''p'') (Leaf ''p'')))"
  by (simp add: to_nand_T to_nand_F)

text \<open>
  C5 (fails on the code): converting twice with \<open>to_nand\<close> does not give a formula
  equivalent to the input. On the constant \<open>F\<close> the first conversion gives
  \<open>p -& (p -& p)\<close>, the second conversion returns that formula unchanged, and it is
  true under every assignment.
\<close>

theorem to_nand_twice_not_equivalent:
  "\<exists>g h. to_nand (Leaf ''F'') = Some g \<and> to_nand g = Some h
     \<and> operators h \<subseteq> {''-&''}
     \<and> evaluate h model = Some True \<and> evaluate (Leaf ''F'') model = Some False"
  by (simp add: to_nand_unfold label_kinds is_variable_p is_constant_def)

text \<open>
  C6: \<open>to_not_and\<close> removes a disjunction by De Morgan's law: for well-formed
  \<open>A\<close> and \<open>B\<close>, with \<open>a\<close> and \<open>b\<close> the conversions of \<open>A\<close> and \<open>B\<close>, the
  conversion of \<open>A | B\<close> is \<open>~(~a & ~b)\<close>; on the input \<open>p | q\<close> the result is
  exactly \<open>~(~p & ~q)\<close>.
\<close>

theorem to_not_and_disjunction_de_morgan:
  assumes "wf_formula A" and "wf_formula B"
  shows "(\<exists>a b. to_not_and A = Some a \<and> to_not_and B = Some b
           \<and> to_not_and (Binary ''|'' A B)
               = Some (Unary ''~'' (Binary ''&'' (Unary ''~'' a) (Unary ''~'' b))))
       \<and> to_not_and (Binary ''|'' (Leaf ''p'') (Leaf ''q''))
           = Some (Unary ''~'' (Binary ''&'' (Unary ''~'' (Leaf ''p'')) (Unary ''~'' (Leaf ''q''))))"
proof -
  from to_not_and_correct[OF assms(1)] obtain a where a: "to_not_and A = Some a" by blast
  from to_not_and_correct[OF assms(2)] obtain b where b: "to_not_and B = Some b" by blast
  have "to_not_and (Binary ''|'' A B)
          = Some (Unary ''~'' (Binary ''&'' (Unary ''~'' a) (Unary ''~'' b)))"
    by (simp add: to_not_and_Or a b)
  moreover have "to_not_and (Binary ''|'' (Leaf ''p'') (Leaf ''q''))
          = Some (Unary ''~'' (Binary ''&'' (Unary ''~'' (Leaf ''p'')) (Unary ''~'' (Leaf ''q''))))"
    by (simp add: to_not_and_Or to_not_and_Var)
  ultimately show ?thesis using a b by simp
qed

theorem to_not_and_disjunction_de_morgan_witness:
  "wf_formula (Binary ''->'' (Leaf ''p'') (Leaf ''q'')) \<and> wf_formula (Leaf ''T'')
   \<and> ((\<exists>a b. to_not_and (Binary ''->'' (Leaf ''p'') (Leaf ''q'')) = Some a
           \<and> to_not_and (Leaf ''T'') = Some b
           \<and> to_not_and (Binary ''|'' (Binary ''->'' (Leaf ''p'') (Leaf ''q'')) (Leaf ''T''))
               = Some (Unary ''~'' (Binary ''&'' (Unary ''~'' a) (Unary ''~'' b))))
       \<and> to_not_and (Binary ''|'' (Leaf ''p'') (Leaf ''q''))
           = Some (Unary ''~'' (Binary ''&'' (Unary ''~'' (Leaf ''p'')) (Unary ''~'' (Leaf ''q'')))))"
proof -
  have h1: "wf_formula (Binary ''->'' (Leaf ''p'') (Leaf ''q''))"
    by (simp add: is_binary_def)
  have h2: "wf_formula (Leaf ''T'')"
    by (simp add: is_constant_def)
  from conjI[OF h1 conjI[OF h2 to_not_and_disjunction_de_morgan[OF h1 h2]]] show ?thesis .
qed

text \<open>
  C7: in \<open>to_nand\<close> the nor case goes through the disjunction: for well-formed
  \<open>A\<close> and \<open>B\<close>, with \<open>o\<close> the conversion of \<open>A | B\<close>, the conversion of
  \<open>A -| B\<close> is \<open>o -& o\<close>, the negation rule applied to \<open>o\<close>.
\<close>

theorem to_nand_nor_through_or:
  assumes "wf_formula A" and "wf_formula B"
  shows "\<exists>or_formula. to_nand (Binary ''|'' A B) = Some or_formula
           \<and> to_nand (Binary ''-|'' A B) = Some (Binary ''-&'' or_formula or_formula)"
proof -
  from to_nand_correct[OF assms(1)] obtain a where a: "to_nand A = Some a" by blast
  from to_nand_correct[OF assms(2)] obtain b where b: "to_nand B = Some b" by blast
  show ?thesis by (simp add: to_nand_Nor to_nand_Or a b)
qed

theorem to_nand_nor_through_or_witness:
  "wf_formula (Unary ''~'' (Leaf ''r'')) \<and> wf_formula (Binary ''&'' (Leaf ''p'') (Leaf ''q''))
   \<and> (\<exists>or_formula.
          to_nand (Binary ''|'' (Unary ''~'' (Leaf ''r'')) (Binary ''&'' (Leaf ''p'') (Leaf ''q'')))
            = Some or_formula
        \<and> to_nand (Binary ''-|'' (Unary ''~'' (Leaf ''r'')) (Binary ''&'' (Leaf ''p'') (Leaf ''q'')))
            = Some (Binary ''-&'' or_formula or_formula))"
proof -
  have h1: "wf_formula (Unary ''~'' (Leaf ''r''))"
    by (simp add: is_unary_def)
  have h2: "wf_formula (Binary ''&'' (Leaf ''p'') (Leaf ''q''))"
    by (simp add: is_binary_def)
  from conjI[OF h1 conjI[OF h2 to_nand_nor_through_or[OF h1 h2]]] show ?thesis .
qed

text \<open>
  C8: the five converters are total on well-formed formulas: where every root label of
  the formula is one of the eleven recognised kinds, each converter returns a formula,
  and that formula is well-formed. In particular \<open>to_not_and_or\<close> does not reach its
  end without a result.
\<close>

theorem converters_total:
  assumes "wf_formula f"
  shows "(\<exists>g. to_not_and_or f = Some g \<and> wf_formula g)
       \<and> (\<exists>g. to_not_and f = Some g \<and> wf_formula g)
       \<and> (\<exists>g. to_nand f = Some g \<and> wf_formula g)
       \<and> (\<exists>g. to_implies_not f = Some g \<and> wf_formula g)
       \<and> (\<exists>g. to_implies_false f = Some g \<and> wf_formula g)"
proof -
  from to_not_and_or_correct[OF assms] obtain g1 where
    "to_not_and_or f = Some g1" "wf_formula g1" by blast
  moreover from to_not_and_correct[OF assms] obtain g2 where
    "to_not_and f = Some g2" "wf_formula g2" by blast
  moreover from to_nand_correct[OF assms] obtain g3 where
    "to_nand f = Some g3" "wf_formula g3" by blast
  moreover from to_implies_not_correct[OF assms] obtain g4 where
    "to_implies_not f = Some g4" "wf_formula g4" by blast
  moreover from to_implies_false_correct[OF assms] obtain g5 where
    "to_implies_false f = Some g5" "wf_formula g5" by blast
  ultimately show ?thesis by simp
qed

theorem converters_total_witness:
  "wf_formula (Binary ''<->'' (Unary ''~'' (Leaf ''z'')) (Binary ''-|'' (Leaf ''F'') (Leaf ''s2'')))
   \<and> ((\<exists>g. to_not_and_or 
            (Binary ''<->'' (Unary ''~'' (Leaf ''z'')) (Binary ''-|'' (Leaf ''F'') (Leaf ''s2''))) = Some g \<and> wf_formula g)
       \<and> (\<exists>g. to_not_and 
            (Binary ''<->'' (Unary ''~'' (Leaf ''z'')) (Binary ''-|'' (Leaf ''F'') (Leaf ''s2''))) = Some g \<and> wf_formula g)
       \<and> (\<exists>g. to_nand 
            (Binary ''<->'' (Unary ''~'' (Leaf ''z'')) (Binary ''-|'' (Leaf ''F'') (Leaf ''s2''))) = Some g \<and> wf_formula g)
       \<and> (\<exists>g. to_implies_not 
            (Binary ''<->'' (Unary ''~'' (Leaf ''z'')) (Binary ''-|'' (Leaf ''F'') (Leaf ''s2''))) = Some g \<and> wf_formula g)
       \<and> (\<exists>g. to_implies_false 
            (Binary ''<->'' (Unary ''~'' (Leaf ''z'')) (Binary ''-|'' (Leaf ''F'') (Leaf ''s2''))) = Some g \<and> wf_formula g))"
proof -
  have h: "wf_formula (Binary ''<->'' (Unary ''~'' (Leaf ''z'')) (Binary ''-|'' (Leaf ''F'') (Leaf ''s2'')))"
    by (simp add: is_binary_def is_unary_def is_constant_def is_digit_def)
  from h converters_total[OF h] show ?thesis by (rule conjI)
qed

text \<open>
  C9: each converter is syntactically idempotent on well-formed formulas: applied to
  its own result, it returns that result unchanged.
\<close>

theorem converters_idempotent:
  assumes "wf_formula f"
  shows "(\<exists>g. to_not_and_or f = Some g \<and> to_not_and_or g = Some g)
       \<and> (\<exists>g. to_not_and f = Some g \<and> to_not_and g = Some g)
       \<and> (\<exists>g. to_nand f = Some g \<and> to_nand g = Some g)
       \<and> (\<exists>g. to_implies_not f = Some g \<and> to_implies_not g = Some g)
       \<and> (\<exists>g. to_implies_false f = Some g \<and> to_implies_false g = Some g)"
proof -
  from to_not_and_or_correct[OF assms] obtain g1 where
    "to_not_and_or f = Some g1" "to_not_and_or g1 = Some g1"
    using to_not_and_or_fixed by blast
  moreover from to_not_and_correct[OF assms] obtain g2 where
    "to_not_and f = Some g2" "to_not_and g2 = Some g2"
    using to_not_and_fixed by blast
  moreover from to_nand_correct[OF assms] obtain g3 where
    "to_nand f = Some g3" "to_nand g3 = Some g3"
    using to_nand_fixed by blast
  moreover from to_implies_not_correct[OF assms] obtain g4 where
    "to_implies_not f = Some g4" "to_implies_not g4 = Some g4"
    using to_implies_not_fixed by blast
  moreover from to_implies_false_correct[OF assms] obtain g5 where
    "to_implies_false f = Some g5" "to_implies_false g5 = Some g5"
    using to_implies_false_fixed by blast
  ultimately show ?thesis by simp
qed

theorem converters_idempotent_witness:
  "wf_formula (Binary ''+'' (Leaf ''T'') (Binary ''->'' (Leaf ''p'') (Leaf ''q'')))
   \<and> ((\<exists>g. to_not_and_or 
            (Binary ''+'' (Leaf ''T'') (Binary ''->'' (Leaf ''p'') (Leaf ''q''))) = Some g \<and> to_not_and_or g = Some g)
       \<and> (\<exists>g. to_not_and 
            (Binary ''+'' (Leaf ''T'') (Binary ''->'' (Leaf ''p'') (Leaf ''q''))) = Some g \<and> to_not_and g = Some g)
       \<and> (\<exists>g. to_nand 
            (Binary ''+'' (Leaf ''T'') (Binary ''->'' (Leaf ''p'') (Leaf ''q''))) = Some g \<and> to_nand g = Some g)
       \<and> (\<exists>g. to_implies_not 
            (Binary ''+'' (Leaf ''T'') (Binary ''->'' (Leaf ''p'') (Leaf ''q''))) = Some g \<and> to_implies_not g = Some g)
       \<and> (\<exists>g. to_implies_false 
            (Binary ''+'' (Leaf ''T'') (Binary ''->'' (Leaf ''p'') (Leaf ''q''))) = Some g \<and> to_implies_false g = Some g))"
proof -
  have h: "wf_formula (Binary ''+'' (Leaf ''T'') (Binary ''->'' (Leaf ''p'') (Leaf ''q'')))"
    by (simp add: is_binary_def is_constant_def)
  from h converters_idempotent[OF h] show ?thesis by (rule conjI)
qed

text \<open>
  C10: on a well-formed formula, the variable names of the result of a converter are
  variable names of the input or the name \<open>p\<close>; the result of \<open>to_implies_false\<close>
  has only variable names of the input.
\<close>

theorem converters_variables:
  assumes "wf_formula f"
  shows "(\<exists>g. to_not_and_or f = Some g \<and> variables g \<subseteq> insert ''p'' (variables f))
       \<and> (\<exists>g. to_not_and f = Some g \<and> variables g \<subseteq> insert ''p'' (variables f))
       \<and> (\<exists>g. to_nand f = Some g \<and> variables g \<subseteq> insert ''p'' (variables f))
       \<and> (\<exists>g. to_implies_not f = Some g \<and> variables g \<subseteq> insert ''p'' (variables f))
       \<and> (\<exists>g. to_implies_false f = Some g \<and> variables g \<subseteq> variables f)"
proof -
  from to_not_and_or_correct[OF assms] obtain g1 where
    "to_not_and_or f = Some g1" "variables g1 \<subseteq> insert ''p'' (variables f)" by blast
  moreover from to_not_and_correct[OF assms] obtain g2 where
    "to_not_and f = Some g2" "variables g2 \<subseteq> insert ''p'' (variables f)" by blast
  moreover from to_nand_correct[OF assms] obtain g3 where
    "to_nand f = Some g3" "variables g3 \<subseteq> insert ''p'' (variables f)" by blast
  moreover from to_implies_not_correct[OF assms] obtain g4 where
    "to_implies_not f = Some g4" "variables g4 \<subseteq> insert ''p'' (variables f)" by blast
  moreover from to_implies_false_correct[OF assms] obtain g5 where
    "to_implies_false f = Some g5" "variables g5 \<subseteq> variables f" by blast
  ultimately show ?thesis by simp
qed

theorem converters_variables_witness:
  "wf_formula (Binary ''-&'' (Leaf ''T'') (Binary ''|'' (Leaf ''q'') (Leaf ''F'')))
   \<and> ((\<exists>g. to_not_and_or 
            (Binary ''-&'' (Leaf ''T'') (Binary ''|'' (Leaf ''q'') (Leaf ''F''))) = Some g \<and> variables g \<subseteq> insert ''p'' (variables 
            (Binary ''-&'' (Leaf ''T'') (Binary ''|'' (Leaf ''q'') (Leaf ''F'')))))
       \<and> (\<exists>g. to_not_and 
            (Binary ''-&'' (Leaf ''T'') (Binary ''|'' (Leaf ''q'') (Leaf ''F''))) = Some g \<and> variables g \<subseteq> insert ''p'' (variables 
            (Binary ''-&'' (Leaf ''T'') (Binary ''|'' (Leaf ''q'') (Leaf ''F'')))))
       \<and> (\<exists>g. to_nand 
            (Binary ''-&'' (Leaf ''T'') (Binary ''|'' (Leaf ''q'') (Leaf ''F''))) = Some g \<and> variables g \<subseteq> insert ''p'' (variables 
            (Binary ''-&'' (Leaf ''T'') (Binary ''|'' (Leaf ''q'') (Leaf ''F'')))))
       \<and> (\<exists>g. to_implies_not 
            (Binary ''-&'' (Leaf ''T'') (Binary ''|'' (Leaf ''q'') (Leaf ''F''))) = Some g \<and> variables g \<subseteq> insert ''p'' (variables 
            (Binary ''-&'' (Leaf ''T'') (Binary ''|'' (Leaf ''q'') (Leaf ''F'')))))
       \<and> (\<exists>g. to_implies_false 
            (Binary ''-&'' (Leaf ''T'') (Binary ''|'' (Leaf ''q'') (Leaf ''F''))) = Some g \<and> variables g \<subseteq> variables 
            (Binary ''-&'' (Leaf ''T'') (Binary ''|'' (Leaf ''q'') (Leaf ''F'')))))"
proof -
  have h: "wf_formula (Binary ''-&'' (Leaf ''T'') (Binary ''|'' (Leaf ''q'') (Leaf ''F'')))"
    by (simp add: is_binary_def is_constant_def)
  from h converters_variables[OF h] show ?thesis by (rule conjI)
qed

end
